theory Spec2Isabelle
  imports
    Main
    "HOL-Library.AList"
    "HOL-Library.Char_ord"
    "HOL-Library.List_Lexorder"
    "HOL-Library.Multiset"
begin

section \<open>Strings\<close>

text \<open>
  Strings are lists of 8-bit characters, read as the code units U+0000 to U+00FF of a
  JavaScript string. \<open>trim\<close> removes white space and line terminators, which in that
  range are tab, line feed, vertical tab, form feed, carriage return, space and the
  no-break space U+00A0. \<open>toUpperCase\<close> maps the letters a..z to A..Z and leaves every
  other character alone: that is \<open>String.prototype.toUpperCase\<close> on ASCII strings
  (\<open>isAscii\<close>). The letters above U+007F are not modelled; a statement that depends on
  how such a letter is upper-cased is made for ASCII strings only.
\<close>

definition isAscii :: "string \<Rightarrow> bool" where
  "isAscii s = (\<forall>c \<in> set s. (of_char c :: nat) < 128)"


definition upperChar :: "char \<Rightarrow> char" where
  "upperChar c =
     (case map_of (zip ''abcdefghijklmnopqrstuvwxyz'' ''ABCDEFGHIJKLMNOPQRSTUVWXYZ'') c of
        Some u \<Rightarrow> u
      | None \<Rightarrow> c)"

definition toUpperCase :: "string \<Rightarrow> string" where
  "toUpperCase s = map upperChar s"

definition isWhiteSpace :: "char \<Rightarrow> bool" where
  "isWhiteSpace c =
     (c \<in> set [CHR 0x09, CHR 0x0A, CHR 0x0B, CHR 0x0C, CHR 0x0D, CHR 0x20, CHR 0xA0])"

definition trim :: "string \<Rightarrow> string" where
  "trim s = rev (dropWhile isWhiteSpace (rev (dropWhile isWhiteSpace s)))"

definition startsWith :: "string \<Rightarrow> string \<Rightarrow> bool" where
  "startsWith s p = (take (length p) s = p)"

text \<open>\<open>s.split(sep)\<close> for a one-character separator: the empty string gives one empty part.\<close>

fun split :: "char \<Rightarrow> string \<Rightarrow> string list" where
  "split sep [] = [[]]"
| "split sep (c # cs) =
     (if c = sep then [] # split sep cs
      else (case split sep cs of
              [] \<Rightarrow> [[c]]
            | p # ps \<Rightarrow> (c # p) # ps))"

text \<open>\<open>parts.join(sep)\<close>.\<close>

fun join :: "char \<Rightarrow> string list \<Rightarrow> string" where
  "join sep [] = []"
| "join sep [p] = p"
| "join sep (p # q # ps) = p @ sep # join sep (q # ps)"

definition isDigit :: "char \<Rightarrow> bool" where
  "isDigit c = (c \<in> set ''0123456789'')"

definition isLetter :: "char \<Rightarrow> bool" where
  "isLetter c =
     (c \<in> set ''abcdefghijklmnopqrstuvwxyzABCDEFGHIJKLMNOPQRSTUVWXYZ'')"

section \<open>utils/helpers.ts\<close>

definition generateCourseId :: "string \<Rightarrow> string \<Rightarrow> string" where
  "generateCourseId courseName instructorName =
     ''OFFERING-'' @ toUpperCase courseName @ ''-'' @ toUpperCase instructorName"

definition generateRegistrationId :: "string \<Rightarrow> string \<Rightarrow> string" where
  "generateRegistrationId employeeName courseId = toUpperCase employeeName @ ''-'' @ courseId"

definition extractCourseIdFromRegistration :: "string \<Rightarrow> string" where
  "extractCourseIdFromRegistration registrationId =
     (let parts = split CHR ''-'' registrationId in join CHR ''-'' (drop 1 parts))"

text \<open>
  \<open>items.sort((a, b) => a.registration_id.localeCompare(b.registration_id))\<close>.
  The sort takes the comparison as a parameter, a function to a negative, zero or
  positive number: what is proved of the controllers for every comparison holds for the
  platform's, which is \<open>localeCompare\<close> below.
  \<open>Array.prototype.sort\<close> is a stable sort; it is modelled by insertion sort, where an
  element is placed before the first element it does not compare greater than.
\<close>

fun insertBy :: "('a \<Rightarrow> 'a \<Rightarrow> int) \<Rightarrow> 'a \<Rightarrow> 'a list \<Rightarrow> 'a list" where
  "insertBy cmp x [] = [x]"
| "insertBy cmp x (y # ys) = (if cmp x y \<le> 0 then x # y # ys else y # insertBy cmp x ys)"

definition sortWith :: "('a \<Rightarrow> 'a \<Rightarrow> int) \<Rightarrow> 'a list \<Rightarrow> 'a list" where
  "sortWith cmp xs = foldr (insertBy cmp) xs []"

text \<open>
  \<open>String.prototype.localeCompare\<close> called without a locale, on ASCII strings, for a
  host whose default locale is English: the default collation of the platform's
  internationalisation library (the root collation of the Unicode CLDR, which the English
  locales use unchanged). Every character has a rank:
  first the white space, then the punctuation and the symbols in the order
  \<open>_ - , ; : ! ? . ' " ( ) [ ] { } @ * / \ & # % ` ^ + < = > | ~ $\<close>, then the digits,
  then the letters, a small letter and its capital sharing one rank. Two strings are
  compared by the ranks of their characters from left to right, a proper prefix first.
  Letter case decides only between strings of the same ranks: at the first position where
  they differ in case, the small letter comes first. A character without a rank is
  passed over, as the platform does with the control characters; the model gives no rank
  to the characters above U+007F, which are outside its range.
\<close>

definition collationOrder :: string where
  "collationOrder =
     [CHR 0x09, CHR 0x0A, CHR 0x0B, CHR 0x0C, CHR 0x0D] @ '' _-,;:!?.'' @
     [CHR 0x27, CHR 0x22] @ ''()[]{}@*/'' @ [CHR 0x5C] @ ''&#%'' @ [CHR 0x60] @
     ''^+<=>|~$0123456789ABCDEFGHIJKLMNOPQRSTUVWXYZ''"

definition collationRank :: "char \<Rightarrow> nat option" where
  "collationRank c =
     (let u = upperChar c
      in if u \<in> set collationOrder
         then Some (length (takeWhile (\<lambda>x. x \<noteq> u) collationOrder))
         else None)"

definition isCapital :: "char \<Rightarrow> bool" where
  "isCapital c = (c \<in> set ''ABCDEFGHIJKLMNOPQRSTUVWXYZ'')"

definition rankKey :: "string \<Rightarrow> nat list" where
  "rankKey s = concat (map (\<lambda>c. case collationRank c of Some r \<Rightarrow> [r] | None \<Rightarrow> []) s)"

definition caseKey :: "string \<Rightarrow> nat list" where
  "caseKey s =
     concat (map (\<lambda>c. case collationRank c of
                         Some r \<Rightarrow> [if isCapital c then 1 else 0]
                       | None \<Rightarrow> []) s)"

definition localeCompare :: "string \<Rightarrow> string \<Rightarrow> int" where
  "localeCompare a b =
     (if rankKey a < rankKey b then - 1
      else if rankKey b < rankKey a then 1
      else if caseKey a < caseKey b then - 1
      else if caseKey b < caseKey a then 1
      else 0)"


section \<open>utils/validators.ts\<close>

definition sanitizeInput :: "string \<Rightarrow> string" where
  "sanitizeInput input = (if input = [] then [] else trim input)"

definition isEmptyAfterTrim :: "string \<Rightarrow> bool" where
  "isEmptyAfterTrim input = (length (sanitizeInput input) = 0)"

text \<open>
  The regular expression \<open>^[a-zA-Z0-9._-]+@[a-zA-Z0-9.-]+\.[a-zA-Z]{2,}$\<close>: no class
  contains the at sign and the last class contains no dot, so a match splits the string at
  its only at sign and at its last dot.
\<close>

definition emailRegex :: "string \<Rightarrow> bool" where
  "emailRegex s =
     (let localPart = takeWhile (\<lambda>c. c \<noteq> CHR ''@'') s;
          afterLocal = dropWhile (\<lambda>c. c \<noteq> CHR ''@'') s;
          rest = drop 1 afterLocal;
          tld = rev (takeWhile (\<lambda>c. c \<noteq> CHR ''.'') (rev rest));
          beforeTld = rev (dropWhile (\<lambda>c. c \<noteq> CHR ''.'') (rev rest));
          domain = butlast beforeTld
      in afterLocal \<noteq> [] \<and>
         localPart \<noteq> [] \<and>
         (\<forall>c \<in> set localPart. isLetter c \<or> isDigit c \<or> c \<in> set ''._-'') \<and>
         beforeTld \<noteq> [] \<and>
         domain \<noteq> [] \<and>
         (\<forall>c \<in> set domain. isLetter c \<or> isDigit c \<or> c \<in> set ''.-'') \<and>
         2 \<le> length tld \<and>
         (\<forall>c \<in> set tld. isLetter c))"

definition isValidEmail :: "string \<Rightarrow> bool" where
  "isValidEmail email = (if email = [] then False else emailRegex (trim email))"

definition isValidRegistrationIdFormat :: "string \<Rightarrow> bool" where
  "isValidRegistrationIdFormat registrationId =
     (if registrationId = [] then False
      else (let trimmed = trim registrationId;
                parts = split CHR ''-'' trimmed
            in if length parts < 4 then False
               else if parts ! 1 \<noteq> ''OFFERING'' then False
               else (\<forall>part \<in> set parts. length part > 0)))"

definition isValidCourseIdFormat :: "string \<Rightarrow> bool" where
  "isValidCourseIdFormat courseId =
     (if courseId = [] then False
      else (let trimmed = trim courseId
            in if \<not> startsWith trimmed ''OFFERING-'' then False
               else (let parts = split CHR ''-'' trimmed
                     in if length parts < 3 then False
                        else (\<forall>part \<in> set parts. length part > 0))))"


section \<open>Dates\<close>

text \<open>
  \<open>parseInt(s)\<close> and \<open>parseInt(s, 10)\<close>: leading white space is skipped, one sign is
  read, without a radix the prefix \<open>0x\<close> selects base 16, and the longest run of digits
  is the value; \<open>None\<close> stands for \<open>NaN\<close>.
\<close>

definition digitValue :: "char \<Rightarrow> nat" where
  "digitValue c =
     (case map_of (zip ''0123456789abcdefABCDEF''
                      [0, 1, 2, 3, 4, 5, 6, 7, 8, 9, 10, 11, 12, 13, 14, 15, 10, 11, 12, 13, 14, 15]) c of
        Some v \<Rightarrow> v
      | None \<Rightarrow> 36)"

definition parseDigits :: "nat \<Rightarrow> bool \<Rightarrow> string \<Rightarrow> int option" where
  "parseDigits radix negative s =
     (let ds = takeWhile (\<lambda>c. digitValue c < radix) s
      in if ds = [] then None
         else Some ((if negative then - 1 else 1) *
                    int (foldl (\<lambda>acc c. acc * radix + digitValue c) 0 ds)))"

definition parseSign :: "string \<Rightarrow> bool \<times> string" where
  "parseSign s =
     (case dropWhile isWhiteSpace s of
        [] \<Rightarrow> (False, [])
      | c # cs \<Rightarrow>
          if c = CHR ''-'' then (True, cs)
          else if c = CHR ''+'' then (False, cs)
          else (False, c # cs))"

definition parseInt10 :: "string \<Rightarrow> int option" where
  "parseInt10 s = (case parseSign s of (negative, r) \<Rightarrow> parseDigits 10 negative r)"

definition parseInt :: "string \<Rightarrow> int option" where
  "parseInt s =
     (case parseSign s of (negative, r) \<Rightarrow>
        if take 2 r = ''0x'' \<or> take 2 r = ''0X'' then parseDigits 16 negative (drop 2 r)
        else parseDigits 10 negative r)"

text \<open>
  A \<open>Date\<close> built by \<open>new Date(year, month, day)\<close> and moved to midnight by
  \<open>setHours(0, 0, 0, 0)\<close> is the local midnight of a calendar day. Two such dates compare
  as their day numbers do, so a date is modelled by its day number (days since 1 January
  1970), computed as the language standard's \<open>MakeDay\<close> does: months outside 0..11 carry
  into the year, days outside the month carry into the following months, and a year from 0
  to 99 means 1900 plus that year.
\<close>

definition dayFromYear :: "int \<Rightarrow> int" where
  "dayFromYear y =
     365 * (y - 1970) + (y - 1969) div 4 - (y - 1901) div 100 + (y - 1601) div 400"

definition inLeapYear :: "int \<Rightarrow> bool" where
  "inLeapYear y = ((y mod 4 = 0 \<and> y mod 100 \<noteq> 0) \<or> y mod 400 = 0)"

definition monthStart :: "int \<Rightarrow> nat \<Rightarrow> int" where
  "monthStart y mn =
     [0, 31, 59, 90, 120, 151, 181, 212, 243, 273, 304, 334] ! mn +
     (if inLeapYear y \<and> 2 \<le> mn then 1 else 0)"

definition makeDay :: "int \<Rightarrow> int \<Rightarrow> int \<Rightarrow> int" where
  "makeDay year month day =
     (let ym = year + month div 12;
          mn = nat (month mod 12)
      in dayFromYear ym + monthStart ym mn + day - 1)"

definition newDate :: "int option \<Rightarrow> int option \<Rightarrow> int option \<Rightarrow> int option" where
  "newDate year month day =
     (case (year, month, day) of
        (Some y, Some m, Some d) \<Rightarrow>
          Some (makeDay (if 0 \<le> y \<and> y \<le> 99 then 1900 + y else y) m d)
      | _ \<Rightarrow> None)"

text \<open>
  The date of a \<open>DDMMYYYY\<close> string, as both controllers compute it:
  \<open>new Date(parseInt(s.substring(4, 8)), parseInt(s.substring(2, 4)) - 1,
  parseInt(s.substring(0, 2)))\<close>. \<open>None\<close> is the invalid date.
\<close>

definition dateOfDDMMYYYY :: "string \<Rightarrow> int option" where
  "dateOfDDMMYYYY s =
     (let day = parseInt (take 2 s);
          month = map_option (\<lambda>m. m - 1) (parseInt (take 2 (drop 2 s)));
          year = parseInt (take 4 (drop 4 s))
      in newDate year month day)"

definition isValidDateFormat :: "string \<Rightarrow> bool" where
  "isValidDateFormat dateStr =
     (if dateStr = [] \<or> length dateStr \<noteq> 8 then False
      else if \<not> (\<forall>c \<in> set dateStr. isDigit c) then False
      else (case (parseInt10 (take 2 dateStr), parseInt10 (take 2 (drop 2 dateStr)),
                  parseInt10 (take 4 (drop 4 dateStr))) of
              (Some day, Some month, Some year) \<Rightarrow>
                if month < 1 \<or> month > 12 then False
                else if day < 1 \<or> day > 31 then False
                else (let isLeapYear = ((year mod 4 = 0 \<and> year mod 100 \<noteq> 0) \<or> year mod 400 = 0);
                          daysInMonth = [31, if isLeapYear then 29 else 28, 31, 30, 31, 30,
                                         31, 31, 30, 31, 30, 31]
                      in if day > daysInMonth ! nat (month - 1) then False
                         else if year < 1900 \<or> year > 2100 then False
                         else True)
            | _ \<Rightarrow> False))"


section \<open>constants/constants.ts\<close>

datatype registration_status = ACCEPTED | CONFIRMED | COURSE_CANCELED | COURSE_FULL_ERROR

datatype cancellation_status = CANCEL_ACCEPTED | CANCEL_REJECTED

section \<open>The table\<close>

text \<open>
  One table, addressed by the pair of partition key \<open>PK\<close> and sort key \<open>SK\<close>. The
  controllers store three kinds of item, told apart by the attribute \<open>entity_type\<close>
  (\<open>COURSE\<close>, \<open>REGISTRATION\<close>, \<open>EMPLOYEE_COURSE\<close>); each kind is a record of the
  attributes its \<open>Put\<close> writes, and the constructor of \<open>item\<close> is the entity type.
  \<open>course_status\<close> is absent until allotment. Numbers are integers.
\<close>

record course =
  course_id :: string
  course_name :: string
  instructor_name :: string
  start_date :: string
  min_employees :: int
  max_employees :: int
  current_count :: int
  is_allotted :: bool
  course_status :: "registration_status option"

record registration =
  registration_id :: string
  employee_name :: string
  email :: string
  reg_course_id :: string
  status :: registration_status
  created_at :: string

record employee_course =
  emp_registration_id :: string
  emp_employee_name :: string
  emp_course_id :: string
  emp_status :: registration_status

datatype item = Course course | Registration registration | EmployeeCourse employee_course

type_synonym key = "string \<times> string"

type_synonym table = "(key \<times> item) list"

definition coursePK :: "string \<Rightarrow> string" where
  "coursePK cid = ''COURSE#'' @ cid"

definition regSK :: "string \<Rightarrow> string" where
  "regSK rid = ''REG#'' @ rid"

definition employeePK :: "string \<Rightarrow> string" where
  "employeePK upperEmail = ''EMPLOYEE#'' @ upperEmail"

definition courseSK :: "string \<Rightarrow> string" where
  "courseSK cid = ''COURSE#'' @ cid"

text \<open>
  The store's primitives. The table is an association list with one entry per key:
  \<open>GetCommand\<close> is the lookup, \<open>Put\<close> replaces or adds the item of a key, \<open>Delete\<close>
  removes it, \<open>Update\<close> changes attributes of the item of a key, and \<open>QueryCommand\<close>
  with \<open>PK = :pk AND begins_with(SK, :sk)\<close> returns the items of a partition whose sort
  key has the prefix, in the order of their sort keys.
  An \<open>Update\<close> of a key that holds no item is modelled as no change (the store would
  create an item holding only the updated attributes, which is none of the three kinds);
  the controllers update only keys they have just read.
  The store is taken to answer every request: its failures (the 500 responses of the
  controllers) and its size limits are not part of the model.
\<close>

definition getItem :: "table \<Rightarrow> key \<Rightarrow> item option" where
  "getItem t k = map_of t k"

definition query :: "table \<Rightarrow> string \<Rightarrow> string \<Rightarrow> item list" where
  "query t pk skPrefix =
     map snd (sort_key (\<lambda>row. snd (fst row))
       (filter (\<lambda>row. fst (fst row) = pk \<and> startsWith (snd (fst row)) skPrefix) t))"

datatype transact_item =
    Put key item
  | Delete key
  | AddCurrentCount key int
  | SetStatus key registration_status
  | SetAllotted key bool registration_status

definition addCurrentCount :: "int \<Rightarrow> item \<Rightarrow> item" where
  "addCurrentCount n it =
     (case it of Course c \<Rightarrow> Course (c\<lparr>current_count := current_count c + n\<rparr>) | _ \<Rightarrow> it)"

definition setStatus :: "registration_status \<Rightarrow> item \<Rightarrow> item" where
  "setStatus st it =
     (case it of
        Registration r \<Rightarrow> Registration (r\<lparr>status := st\<rparr>)
      | EmployeeCourse e \<Rightarrow> EmployeeCourse (e\<lparr>emp_status := st\<rparr>)
      | Course c \<Rightarrow> it)"

definition setAllotted :: "bool \<Rightarrow> registration_status \<Rightarrow> item \<Rightarrow> item" where
  "setAllotted allotted st it =
     (case it of
        Course c \<Rightarrow> Course (c\<lparr>is_allotted := allotted, course_status := Some st\<rparr>)
      | _ \<Rightarrow> it)"

fun applyWrite :: "transact_item \<Rightarrow> table \<Rightarrow> table" where
  "applyWrite (Put k it) t = AList.update k it t"
| "applyWrite (Delete k) t = AList.delete k t"
| "applyWrite (AddCurrentCount k n) t = AList.map_entry k (addCurrentCount n) t"
| "applyWrite (SetStatus k st) t = AList.map_entry k (setStatus st) t"
| "applyWrite (SetAllotted k allotted st) t = AList.map_entry k (setAllotted allotted st) t"

text \<open>\<open>TransactWriteCommand\<close>: every write of the list is applied, in one step.\<close>

definition transactWrite :: "transact_item list \<Rightarrow> table \<Rightarrow> table" where
  "transactWrite ws t = fold applyWrite ws t"

text \<open>
  The item read under a course's \<open>METADATA\<close> key, as a course; and the registrations
  among the items a query returns.
\<close>

definition getCourse :: "table \<Rightarrow> string \<Rightarrow> course option" where
  "getCourse t cid =
     (case getItem t (coursePK cid, ''METADATA'') of
        Some (Course c) \<Rightarrow> Some c
      | _ \<Rightarrow> None)"

fun registrationsOf :: "item list \<Rightarrow> registration list" where
  "registrationsOf [] = []"
| "registrationsOf (Registration r # its) = r # registrationsOf its"
| "registrationsOf (_ # its) = registrationsOf its"

section \<open>Responses\<close>

text \<open>
  A controller returns the table it leaves and its response: a failure is the HTTP status
  with the response's \<open>message\<close>, a success is the \<open>data.success\<close> payload of the
  status-200 response.
\<close>

type_synonym failure = "nat \<times> string"

record allotted =
  out_registration_id :: string
  out_email :: string
  out_course_name :: string
  out_course_id :: string
  out_status :: registration_status

definition sortByRegistrationId ::
    "(string \<Rightarrow> string \<Rightarrow> int) \<Rightarrow> allotted list \<Rightarrow> allotted list" where
  "sortByRegistrationId compareIds items =
     sortWith (\<lambda>a b. compareIds (out_registration_id a) (out_registration_id b)) items"


section \<open>controllers/courseController.ts\<close>

text \<open>
  The clock is an argument: \<open>today\<close> is the day number of \<open>new Date()\<close> after
  \<open>setHours(0, 0, 0, 0)\<close>. A comparison with an invalid date is false.
\<close>

definition addCourseOffering ::
    "int \<Rightarrow> table \<Rightarrow> string \<Rightarrow> string \<Rightarrow> string \<Rightarrow> int option \<Rightarrow> int option
      \<Rightarrow> table \<times> (failure + string)" where
  "addCourseOffering today t courseName instructorName startDate minEmployees maxEmployees =
     (case (minEmployees, maxEmployees) of
        (Some minE, Some maxE) \<Rightarrow>
          if courseName = [] \<or> instructorName = [] \<or> startDate = [] then
            (t, Inl (400, ''INPUT_DATA_ERROR''))
          else
            (let sanitizedCourseName = sanitizeInput courseName;
                 sanitizedInstructorName = sanitizeInput instructorName;
                 sanitizedStartDate = sanitizeInput startDate
             in if isEmptyAfterTrim courseName \<or> isEmptyAfterTrim instructorName \<or>
                   isEmptyAfterTrim startDate then
                  (t, Inl (400, ''INPUT_DATA_ERROR''))
                else if minE < 0 \<or> maxE < 0 then (t, Inl (400, ''INPUT_DATA_ERROR''))
                else if minE > maxE then (t, Inl (400, ''INPUT_DATA_ERROR''))
                else if \<not> isValidDateFormat sanitizedStartDate then
                  (t, Inl (400, ''INPUT_DATA_ERROR''))
                else if (case dateOfDDMMYYYY sanitizedStartDate of
                           Some courseStartDate \<Rightarrow> courseStartDate < today
                         | None \<Rightarrow> False) then
                  (t, Inl (400, ''INPUT_DATA_ERROR''))
                else
                  (let cid = generateCourseId sanitizedCourseName sanitizedInstructorName
                   in if getItem t (coursePK cid, ''METADATA'') \<noteq> None then
                        (t, Inl (400, ''DUPLICATE_COURSE_ERROR''))
                      else
                        (applyWrite
                           (Put (coursePK cid, ''METADATA'')
                              (Course \<lparr>course_id = cid,
                                       course_name = sanitizedCourseName,
                                       instructor_name = sanitizedInstructorName,
                                       start_date = sanitizedStartDate,
                                       min_employees = minE,
                                       max_employees = maxE,
                                       current_count = 0,
                                       is_allotted = False,
                                       course_status = None\<rparr>)) t,
                         Inr cid)))
      | _ \<Rightarrow> (t, Inl (400, ''INPUT_DATA_ERROR'')))"

text \<open>The check \<open>currentDate > courseStartDate\<close> of \<open>allotCourse\<close>.\<close>

definition startDatePassed :: "int \<Rightarrow> string \<Rightarrow> bool" where
  "startDatePassed today startDateStr =
     (if startDateStr \<noteq> [] \<and> length startDateStr = 8 then
        (case dateOfDDMMYYYY startDateStr of
           Some courseStartDate \<Rightarrow> today > courseStartDate
         | None \<Rightarrow> False)
      else False)"

definition finalStatusOf :: "registration list \<Rightarrow> course \<Rightarrow> registration_status" where
  "finalStatusOf registrations c =
     (if int (length registrations) \<ge> min_employees c then CONFIRMED else COURSE_CANCELED)"

text \<open>The writes of \<open>allotCourse\<close>: one transaction, or one update when nobody registered.\<close>

definition allotWrites ::
    "string \<Rightarrow> registration list \<Rightarrow> registration_status \<Rightarrow> transact_item list" where
  "allotWrites cid registrations finalStatus =
     (if length registrations > 0 then
        map (\<lambda>reg. SetStatus (coursePK cid, regSK (registration_id reg)) finalStatus)
          registrations
        @ [SetAllotted (coursePK cid, ''METADATA'') True finalStatus]
      else [SetAllotted (coursePK cid, ''METADATA'') True COURSE_CANCELED])"

definition allotCourse ::
    "(string \<Rightarrow> string \<Rightarrow> int) \<Rightarrow> int \<Rightarrow> table \<Rightarrow> string
      \<Rightarrow> table \<times> (failure + string \<times> allotted list)" where
  "allotCourse compareIds today t cid =
     (if cid = [] then (t, Inl (400, ''INPUT_DATA_ERROR''))
      else if \<not> isValidCourseIdFormat cid then (t, Inl (400, ''INPUT_DATA_ERROR''))
      else
        (case getCourse t cid of
           None \<Rightarrow> (t, Inl (404, ''Course not found''))
         | Some c \<Rightarrow>
             if startDatePassed today (start_date c) then
               (t, Inl (400, ''COURSE_ALLOT_DATE_ERROR''))
             else if is_allotted c then (t, Inl (400, ''Course already allotted''))
             else
               (let registrations = registrationsOf (query t (coursePK cid) ''REG#'');
                    finalStatus = finalStatusOf registrations c;
                    updatedRegistrations =
                      map (\<lambda>reg. \<lparr>out_registration_id = registration_id reg,
                                  out_email = email reg,
                                  out_course_name = course_name c,
                                  out_course_id = cid,
                                  out_status = finalStatus\<rparr>) registrations;
                    sortedRegistrations = sortByRegistrationId compareIds updatedRegistrations;
                    isCanceled = (finalStatus = COURSE_CANCELED);
                    message = (if isCanceled
                               then ''Course canceled - minimum registrations not met''
                               else ''successfully allotted course to registered employees'')
                in (transactWrite (allotWrites cid registrations finalStatus) t,
                    Inr (message, sortedRegistrations)))))"

section \<open>controllers/registrationController.ts\<close>

text \<open>The three writes of the registration transaction; \<open>createdAt\<close> is the clock's reading.\<close>

definition registerWrites ::
    "string \<Rightarrow> string \<Rightarrow> string \<Rightarrow> string \<Rightarrow> string \<Rightarrow> transact_item list" where
  "registerWrites createdAt cid rid sanitizedEmployeeName sanitizedEmail =
     [Put (coursePK cid, regSK rid)
        (Registration \<lparr>registration_id = rid,
                       employee_name = sanitizedEmployeeName,
                       email = sanitizedEmail,
                       reg_course_id = cid,
                       status = ACCEPTED,
                       created_at = createdAt\<rparr>),
      Put (employeePK (toUpperCase sanitizedEmail), courseSK cid)
        (EmployeeCourse \<lparr>emp_registration_id = rid,
                         emp_employee_name = sanitizedEmployeeName,
                         emp_course_id = cid,
                         emp_status = ACCEPTED\<rparr>),
      AddCurrentCount (coursePK cid, ''METADATA'') 1]"

definition registerForCourse ::
    "string \<Rightarrow> table \<Rightarrow> string \<Rightarrow> string \<Rightarrow> string
      \<Rightarrow> table \<times> (failure + string \<times> registration_status)" where
  "registerForCourse createdAt t cid employeeName emailAddr =
     (if employeeName = [] \<or> emailAddr = [] \<or> cid = [] then
        (t, Inl (400, ''INPUT_DATA_ERROR''))
      else
        (let sanitizedEmployeeName = sanitizeInput employeeName;
             sanitizedEmail = sanitizeInput emailAddr
         in if isEmptyAfterTrim employeeName \<or> isEmptyAfterTrim emailAddr then
              (t, Inl (400, ''INPUT_DATA_ERROR''))
            else if \<not> isValidEmail sanitizedEmail then (t, Inl (400, ''INPUT_DATA_ERROR''))
            else if \<not> isValidCourseIdFormat cid then (t, Inl (400, ''INPUT_DATA_ERROR''))
            else
              (case getCourse t cid of
                 None \<Rightarrow> (t, Inl (404, ''Course not found''))
               | Some c \<Rightarrow>
                   if course_status c = Some COURSE_CANCELED then
                     (t, Inl (400, ''Course canceled''))
                   else if is_allotted c then (t, Inl (400, ''Course already allotted''))
                   else if getItem t (employeePK (toUpperCase sanitizedEmail), courseSK cid)
                             \<noteq> None then
                     (t, Inl (400, ''Already registered''))
                   else if current_count c \<ge> max_employees c then
                     (t, Inl (400, ''COURSE_FULL_ERROR''))
                   else
                     (let rid = generateRegistrationId sanitizedEmployeeName cid
                      in (transactWrite
                            (registerWrites createdAt cid rid sanitizedEmployeeName
                               sanitizedEmail) t,
                          Inr (rid, ACCEPTED))))))"

text \<open>
  The cancellation transaction reads \<open>registration.email\<close>; an item without that
  attribute makes the controller throw, which its handler turns into the 500 response.
\<close>

definition cancelWrites :: "string \<Rightarrow> string \<Rightarrow> registration \<Rightarrow> transact_item list" where
  "cancelWrites cid rid reg =
     [Delete (coursePK cid, regSK rid),
      Delete (employeePK (toUpperCase (email reg)), courseSK cid),
      AddCurrentCount (coursePK cid, ''METADATA'') (- 1)]"

definition cancelRegistration ::
    "table \<Rightarrow> string \<Rightarrow> table \<times> (failure + string \<times> string \<times> cancellation_status)" where
  "cancelRegistration t rid =
     (if rid = [] then (t, Inl (400, ''INPUT_DATA_ERROR''))
      else if \<not> isValidRegistrationIdFormat rid then (t, Inl (400, ''INPUT_DATA_ERROR''))
      else
        (let cid = extractCourseIdFromRegistration rid
         in case getItem t (coursePK cid, regSK rid) of
              None \<Rightarrow> (t, Inl (404, ''Registration not found''))
            | Some registrationItem \<Rightarrow>
                (case getCourse t cid of
                   None \<Rightarrow> (t, Inl (404, ''Course not found''))
                 | Some c \<Rightarrow>
                     if is_allotted c then (t, Inr (rid, cid, CANCEL_REJECTED))
                     else
                       (case registrationItem of
                          Registration reg \<Rightarrow>
                            (transactWrite (cancelWrites cid rid reg) t,
                             Inr (rid, cid, CANCEL_ACCEPTED))
                        | _ \<Rightarrow> (t, Inl (500, ''Error canceling registration''))))))"

section \<open>Sequences of requests\<close>

datatype request =
    AddCourseOffering int string string string "int option" "int option"
  | AllotCourse int string
  | RegisterForCourse string string string string
  | CancelRegistration string

fun handle :: "(string \<Rightarrow> string \<Rightarrow> int) \<Rightarrow> table \<Rightarrow> request \<Rightarrow> table" where
  "handle lc t (AddCourseOffering today courseName instructorName startDate minE maxE) =
     fst (addCourseOffering today t courseName instructorName startDate minE maxE)"
| "handle lc t (AllotCourse today cid) = fst (allotCourse lc today t cid)"
| "handle lc t (RegisterForCourse createdAt cid employeeName emailAddr) =
     fst (registerForCourse createdAt t cid employeeName emailAddr)"
| "handle lc t (CancelRegistration rid) = fst (cancelRegistration t rid)"

fun serve :: "(string \<Rightarrow> string \<Rightarrow> int) \<Rightarrow> table \<Rightarrow> request list \<Rightarrow> table" where
  "serve lc t [] = t"
| "serve lc t (req # reqs) = serve lc (handle lc t req) reqs"


section \<open>Invariants of the table\<close>

text \<open>
  The key discipline of the controllers: a table holds one item per key, and every item
  lies under the key its attributes name. A course lies under its \<open>METADATA\<close> key, the
  by-course copy of a registration under \<open>COURSE#course_id\<close> and \<open>REG#registration_id\<close>,
  the by-employee copy in an \<open>EMPLOYEE#\<close> partition under \<open>COURSE#course_id\<close>.
\<close>

fun rowKeyed :: "key \<Rightarrow> item \<Rightarrow> bool" where
  "rowKeyed (pk, sk) (Course c) = (pk = coursePK (course_id c) \<and> sk = ''METADATA'')"
| "rowKeyed (pk, sk) (Registration r) =
     (pk = coursePK (reg_course_id r) \<and> sk = regSK (registration_id r))"
| "rowKeyed (pk, sk) (EmployeeCourse e) =
     (startsWith pk ''EMPLOYEE#'' \<and> sk = courseSK (emp_course_id e))"

definition wf_table :: "table \<Rightarrow> bool" where
  "wf_table t = (distinct (map fst t) \<and> (\<forall>row \<in> set t. rowKeyed (fst row) (snd row)))"

text \<open>The number of by-course registration rows stored in a course's partition.\<close>

definition registrationCount :: "table \<Rightarrow> string \<Rightarrow> nat" where
  "registrationCount t cid = length (query t (coursePK cid) ''REG#'')"

text \<open>The counter of every course equals the number of registration rows in its partition.\<close>

definition countInvariant :: "table \<Rightarrow> bool" where
  "countInvariant t =
     (\<forall>cid c. getCourse t cid = Some c \<longrightarrow> current_count c = int (registrationCount t cid))"

definition allotted :: "table \<Rightarrow> string \<Rightarrow> bool" where
  "allotted t cid = (case getCourse t cid of Some c \<Rightarrow> is_allotted c | None \<Rightarrow> False)"

text \<open>
  One successful registration or cancellation. A registration counts as a step here when
  the registration id it derives is not yet stored under the course.
\<close>

inductive registrationStep :: "table \<Rightarrow> table \<Rightarrow> bool" where
  registered:
    "registerForCourse createdAt t cid employeeName emailAddr = (t', Inr (rid, st)) \<Longrightarrow>
     getItem t (coursePK cid, regSK rid) = None \<Longrightarrow>
     registrationStep t t'"
| cancelled:
    "cancelRegistration t rid = (t', Inr res) \<Longrightarrow> registrationStep t t'"

text \<open>The key condition of a query: the partition key, and a prefix of the sort key.\<close>

definition inPartition :: "string \<Rightarrow> string \<Rightarrow> key \<Rightarrow> bool" where
  "inPartition pk pre k = (fst k = pk \<and> startsWith (snd k) pre)"

text \<open>
  Two syntactic conditions on a write, used to follow \<open>is_allotted\<close> through the
  transactions: a write that cannot clear the flag of any course (it neither replaces nor
  deletes a \<open>METADATA\<close> row and does not set the flag to false), and a write that may
  set the flag of the course \<open>cid\<close>.
\<close>

fun keepsAllotted :: "transact_item \<Rightarrow> bool" where
  "keepsAllotted (Put k it) = (snd k \<noteq> ''METADATA'')"
| "keepsAllotted (Delete k) = (snd k \<noteq> ''METADATA'')"
| "keepsAllotted (SetAllotted k b st) = b"
| "keepsAllotted _ = True"

fun mayAllot :: "string \<Rightarrow> transact_item \<Rightarrow> bool" where
  "mayAllot cid (SetAllotted k b st) = (k = (coursePK cid, ''METADATA''))"
| "mayAllot cid (Put k it) = (case it of Course c \<Rightarrow> is_allotted c | _ \<Rightarrow> False)"
| "mayAllot cid _ = False"

text \<open>A write that puts an item only under the key its attributes name.\<close>

fun keyedWrite :: "transact_item \<Rightarrow> bool" where
  "keyedWrite (Put k it) = rowKeyed k it"
| "keyedWrite _ = True"

section \<open>Example requests\<close>

text \<open>
  The requests of the concrete runs evaluated below: the course JAVA of instructor JAMES,
  starting on 15 June 2030 (day 22080), is created on day 22000.
\<close>

definition addJava :: "int \<Rightarrow> int \<Rightarrow> request" where
  "addJava minE maxE =
     AddCourseOffering 22000 ''JAVA'' ''JAMES'' ''15062030'' (Some minE) (Some maxE)"

definition registerJava :: "string \<Rightarrow> string \<Rightarrow> request" where
  "registerJava employeeName emailAddr =
     RegisterForCourse ''2030-01-01T08:00:00.000Z'' ''OFFERING-JAVA-JAMES'' employeeName emailAddr"

section \<open>Identifier derivation\<close>

lemma split_not_Nil: "split sep s \<noteq> []"
  by (induction s) (auto split: list.splits)

lemma join_Cons: "ps \<noteq> [] \<Longrightarrow> join sep (p # ps) = p @ sep # join sep ps"
  by (cases ps) auto

lemma join_split: "join sep (split sep s) = s"
proof (induction s)
  case Nil
  show ?case by simp
next
  case (Cons c cs)
  show ?case
  proof (cases "c = sep")
    case True
    with Cons show ?thesis by (simp add: join_Cons split_not_Nil)
  next
    case False
    obtain p ps where sp: "split sep cs = p # ps"
      using split_not_Nil [of sep cs] by (cases "split sep cs") auto
    have "join sep ((c # p) # ps) = c # join sep (p # ps)"
      by (cases ps) auto
    with Cons False sp show ?thesis by simp
  qed
qed

lemma split_prefix: "sep \<notin> set p \<Longrightarrow> split sep (p @ sep # s) = p # split sep s"
  by (induction p) auto

lemma upperChar_cases:
  "upperChar c = c \<or>
   (c \<in> set ''abcdefghijklmnopqrstuvwxyz'' \<and> upperChar c \<in> set ''ABCDEFGHIJKLMNOPQRSTUVWXYZ'')"
proof (cases "map_of (zip ''abcdefghijklmnopqrstuvwxyz'' ''ABCDEFGHIJKLMNOPQRSTUVWXYZ'') c")
  case None
  then have "upperChar c = c" by (simp only: upperChar_def option.case)
  then show ?thesis by blast
next
  case (Some u)
  then have "(c, u) \<in> set (zip ''abcdefghijklmnopqrstuvwxyz'' ''ABCDEFGHIJKLMNOPQRSTUVWXYZ'')"
    by (rule map_of_SomeD)
  then have "c \<in> set ''abcdefghijklmnopqrstuvwxyz''" and "u \<in> set ''ABCDEFGHIJKLMNOPQRSTUVWXYZ''"
    by (rule set_zip_leftD, rule set_zip_rightD)
  moreover have "upperChar c = u"
    using Some by (simp only: upperChar_def option.case)
  ultimately show ?thesis by blast
qed

lemma upperChar_hyphen: "(upperChar c = CHR ''-'') = (c = CHR ''-'')"
proof
  assume "upperChar c = CHR ''-''"
  moreover have "CHR ''-'' \<notin> set ''ABCDEFGHIJKLMNOPQRSTUVWXYZ''" by simp
  ultimately show "c = CHR ''-''"
    using upperChar_cases [of c] by metis
next
  assume "c = CHR ''-''"
  then show "upperChar c = CHR ''-''" by (simp add: upperChar_def)
qed

lemma toUpperCase_hyphen: "(CHR ''-'' \<in> set (toUpperCase s)) = (CHR ''-'' \<in> set s)"
  unfolding toUpperCase_def
proof (induction s)
  case Nil
  show ?case by simp
next
  case (Cons c cs)
  have "(CHR ''-'' = upperChar c) = (CHR ''-'' = c)"
    using upperChar_hyphen [of c] by metis
  with Cons show ?case by simp
qed

lemma extract_generate_plain:
  "CHR ''-'' \<notin> set employeeName \<Longrightarrow>
   extractCourseIdFromRegistration (generateRegistrationId employeeName courseId) = courseId"
  by (simp add: extractCourseIdFromRegistration_def generateRegistrationId_def
      split_prefix toUpperCase_hyphen join_split)

text \<open>
  Claim C5, as the code has it. The course id comes back from a registration id when the
  employee name holds no hyphen: \<open>extractCourseIdFromRegistration\<close> drops the text up to
  the first hyphen of the registration id, which is the whole upper-cased name only then.
\<close>

theorem C5_extract_generate:
  "CHR ''-'' \<notin> set employeeName \<Longrightarrow>
   extractCourseIdFromRegistration (generateRegistrationId employeeName courseId) = courseId"
  by (rule extract_generate_plain)

theorem C5_extract_generate_witness:
  "CHR ''-'' \<notin> set ''Andy'' \<and>
   extractCourseIdFromRegistration (generateRegistrationId ''Andy'' ''OFFERING-JAVA-JAMES'')
     = ''OFFERING-JAVA-JAMES''"
  using C5_extract_generate [of "''Andy''" "''OFFERING-JAVA-JAMES''"] by simp

text \<open>
  Claim C5 as stated fails for a name with a hyphen: for Mary-Ann the extraction drops only
  \<open>MARY\<close> and returns \<open>ANN-OFFERING-JAVA-JAMES\<close>.
\<close>

theorem C5_extract_generate_counterexample:
  "extractCourseIdFromRegistration (generateRegistrationId ''Mary-Ann'' ''OFFERING-JAVA-JAMES'')
     \<noteq> ''OFFERING-JAVA-JAMES''"
  by (simp add: extractCourseIdFromRegistration_def generateRegistrationId_def
      toUpperCase_def upperChar_def)

section \<open>Day numbers\<close>

text \<open>
  The day number counts calendar days: the next day of a month is one more, and a day
  past the end of a month is a day of the next month (June has 30 days).
\<close>

lemma makeDay_next_day: "makeDay year month (day + 1) = makeDay year month day + 1"
  by (simp add: makeDay_def Let_def)

lemma makeDay_examples:
  "makeDay 1970 0 1 = 0"
  "makeDay 2030 5 15 = 22080"
  "makeDay 2030 5 31 = makeDay 2030 6 1"
  "makeDay 2030 11 32 = makeDay 2031 0 1"
  by code_simp+

section \<open>Keys and writes\<close>

lemma coursePK_inj [simp]: "(coursePK a = coursePK b) = (a = b)"
  by (simp add: coursePK_def)

lemma regSK_inj [simp]: "(regSK a = regSK b) = (a = b)"
  by (simp add: regSK_def)

lemma courseSK_inj [simp]: "(courseSK a = courseSK b) = (a = b)"
  by (simp add: courseSK_def)

lemma employeePK_inj [simp]: "(employeePK a = employeePK b) = (a = b)"
  by (simp add: employeePK_def)

lemma coursePK_not_employeePK [simp]: "coursePK a \<noteq> employeePK b" "employeePK b \<noteq> coursePK a"
  by (simp_all add: coursePK_def employeePK_def)

lemma regSK_not_METADATA [simp]: "regSK a \<noteq> ''METADATA''" "''METADATA'' \<noteq> regSK a"
  by (simp_all add: regSK_def)

lemma startsWith_regSK [simp]: "startsWith (regSK a) ''REG#''"
  by (simp add: startsWith_def regSK_def)

lemma startsWith_METADATA [simp]: "\<not> startsWith ''METADATA'' ''REG#''"
  by (simp add: startsWith_def)

lemma startsWith_coursePK [simp]: "\<not> startsWith (coursePK a) ''EMPLOYEE#''"
  by (simp add: startsWith_def coursePK_def)

lemma startsWith_employeePK [simp]: "startsWith (employeePK a) ''EMPLOYEE#''"
  by (simp add: startsWith_def employeePK_def)

lemma startsWith_iff: "startsWith s p = (\<exists>r. s = p @ r)"
proof
  assume "startsWith s p"
  then have "s = p @ drop (length p) s"
    unfolding startsWith_def using append_take_drop_id [of "length p" s] by metis
  then show "\<exists>r. s = p @ r" by blast
next
  assume "\<exists>r. s = p @ r"
  then show "startsWith s p" by (auto simp: startsWith_def)
qed

lemma startsWith_REG_D: "startsWith sk ''REG#'' \<Longrightarrow> \<exists>rid. sk = regSK rid"
  unfolding regSK_def by (simp only: startsWith_iff)

lemma map_fst_map_entry: "map fst (AList.map_entry k f t) = map fst t"
  by (induction t) (auto)

lemma getItem_update: "getItem (AList.update k it t) k' = (if k' = k then Some it else getItem t k')"
  by (simp add: getItem_def update_conv')

lemma getItem_delete: "getItem (AList.delete k t) k' = (if k' = k then None else getItem t k')"
  by (simp add: getItem_def delete_conv')

lemma getItem_map_entry:
  "getItem (AList.map_entry k f t) k' = (if k' = k then map_option f (getItem t k) else getItem t k')"
  by (simp add: getItem_def map_of_map_entry split: option.splits)

lemma keys_update:
  "map fst (AList.update k it t) = (if getItem t k = None then map fst t @ [k] else map fst t)"
  by (auto simp: update_keys getItem_def map_of_eq_None_iff)

lemma keys_delete: "map fst (AList.delete k t) = removeAll k (map fst t)"
  by (simp add: delete_keys)

lemmas getItem_applyWrite = getItem_update getItem_delete getItem_map_entry

lemmas keys_applyWrite = keys_update keys_delete map_fst_map_entry

lemma distinct_applyWrite: "distinct (map fst t) \<Longrightarrow> distinct (map fst (applyWrite w t))"
  by (cases w) (simp_all add: distinct_update distinct_delete distinct_map_entry)

lemma distinct_transactWrite: "distinct (map fst t) \<Longrightarrow> distinct (map fst (transactWrite ws t))"
  unfolding transactWrite_def
  by (induction ws arbitrary: t) (simp_all add: distinct_applyWrite)

lemma length_query: "length (query t pk pre) = length (filter (inPartition pk pre) (map fst t))"
proof -
  have "filter (inPartition pk pre) (map fst t) = map fst (filter (\<lambda>row. fst (fst row) = pk \<and> startsWith (snd (fst row)) pre) t)"
    by (simp add: filter_map comp_def inPartition_def)
  then show ?thesis by (simp add: query_def)
qed

lemma registrationCount_keys:
  "registrationCount t cid = length (filter (inPartition (coursePK cid) ''REG#'') (map fst t))"
  by (simp add: registrationCount_def length_query)

lemma length_filter_removeAll:
  "distinct ks \<Longrightarrow> k \<in> set ks \<Longrightarrow> P k \<Longrightarrow> Suc (length (filter P (removeAll k ks))) = length (filter P ks)"
  by (induction ks) auto

lemma filter_removeAll_other: "\<not> P k \<Longrightarrow> filter P (removeAll k ks) = filter P ks"
  by (induction ks) auto

lemma transactWrite_Nil [simp]: "transactWrite [] t = t"
  by (simp add: transactWrite_def)

lemma transactWrite_Cons [simp]: "transactWrite (w # ws) t = transactWrite ws (applyWrite w t)"
  by (simp add: transactWrite_def)

lemma transactWrite_append: "transactWrite (ws @ vs) t = transactWrite vs (transactWrite ws t)"
  by (simp add: transactWrite_def)

lemma getCourse_update:
  "getCourse (AList.update k it t) cid =
     (if k = (coursePK cid, ''METADATA'')
      then (case it of Course c \<Rightarrow> Some c | _ \<Rightarrow> None)
      else getCourse t cid)"
  by (simp add: getCourse_def getItem_update)

lemma getCourse_delete:
  "getCourse (AList.delete k t) cid =
     (if k = (coursePK cid, ''METADATA'') then None else getCourse t cid)"
  by (simp add: getCourse_def getItem_delete)

lemma getCourse_addCurrentCount:
  "getCourse (AList.map_entry k (addCurrentCount n) t) cid =
     (if k = (coursePK cid, ''METADATA'')
      then map_option (\<lambda>c. c\<lparr>current_count := current_count c + n\<rparr>) (getCourse t cid)
      else getCourse t cid)"
proof (cases "getItem t (coursePK cid, ''METADATA'')")
  case None
  then show ?thesis by (simp add: getCourse_def getItem_map_entry)
next
  case (Some it)
  then show ?thesis
    by (cases it) (simp_all add: getCourse_def getItem_map_entry addCurrentCount_def)
qed

lemma getCourse_setStatus:
  "getCourse (AList.map_entry k (setStatus st) t) cid = getCourse t cid"
proof (cases "getItem t (coursePK cid, ''METADATA'')")
  case None
  then show ?thesis by (auto simp: getCourse_def getItem_map_entry)
next
  case (Some it)
  then show ?thesis
    by (cases it) (auto simp: getCourse_def getItem_map_entry setStatus_def)
qed

lemma getCourse_setAllotted:
  "getCourse (AList.map_entry k (setAllotted b st) t) cid =
     (if k = (coursePK cid, ''METADATA'')
      then map_option (\<lambda>c. c\<lparr>is_allotted := b, course_status := Some st\<rparr>) (getCourse t cid)
      else getCourse t cid)"
proof (cases "getItem t (coursePK cid, ''METADATA'')")
  case None
  then show ?thesis by (simp add: getCourse_def getItem_map_entry)
next
  case (Some it)
  then show ?thesis
    by (cases it) (simp_all add: getCourse_def getItem_map_entry setAllotted_def)
qed

lemmas getCourse_applyWrite =
  getCourse_update getCourse_delete getCourse_addCurrentCount getCourse_setStatus
  getCourse_setAllotted

lemma allotted_applyWrite:
  "keepsAllotted w \<Longrightarrow> allotted t cid \<Longrightarrow> allotted (applyWrite w t) cid"
  by (cases w; cases "getCourse t cid")
     (auto simp: allotted_def getCourse_applyWrite)

lemma allotted_transactWrite:
  "\<forall>w \<in> set ws. keepsAllotted w \<Longrightarrow> allotted t cid \<Longrightarrow> allotted (transactWrite ws t) cid"
  by (induction ws arbitrary: t) (simp_all add: allotted_applyWrite)

lemma keepsAllotted_registerWrites:
  "\<forall>w \<in> set (registerWrites ts cid rid n e). keepsAllotted w"
  by (simp add: registerWrites_def regSK_def courseSK_def)

lemma keepsAllotted_cancelWrites:
  "\<forall>w \<in> set (cancelWrites cid rid r). keepsAllotted w"
  by (simp add: cancelWrites_def regSK_def courseSK_def)

lemma keepsAllotted_allotWrites:
  "\<forall>w \<in> set (allotWrites cid regs st). keepsAllotted w"
  by (auto simp: allotWrites_def)

lemma allotted_applyWrite_rev:
  "\<not> mayAllot cid w \<Longrightarrow> allotted (applyWrite w t) cid \<Longrightarrow> allotted t cid"
  by (cases w; cases "getCourse t cid")
     (auto simp: allotted_def getCourse_applyWrite split: if_splits item.splits)

lemma allotted_transactWrite_rev:
  "\<forall>w \<in> set ws. \<not> mayAllot cid w \<Longrightarrow> allotted (transactWrite ws t) cid \<Longrightarrow> allotted t cid"
proof (induction ws arbitrary: t)
  case Nil
  then show ?case by simp
next
  case (Cons w ws)
  then have "allotted (applyWrite w t) cid" by simp
  moreover have "\<not> mayAllot cid w" using Cons.prems by simp
  ultimately show ?case by (rule allotted_applyWrite_rev [rotated])
qed

lemma registerForCourse_Inl: "registerForCourse ts t cid n e = (t', Inl f) \<Longrightarrow> t' = t"
  by (auto simp: registerForCourse_def Let_def split: option.splits if_splits)

lemma registerForCourse_Inr:
  assumes "registerForCourse ts t cid n e = (t', Inr res)"
  shows "\<exists>c. getCourse t cid = Some c \<and> \<not> is_allotted c \<and>
           course_status c \<noteq> Some COURSE_CANCELED \<and>
           getItem t (employeePK (toUpperCase (sanitizeInput e)), courseSK cid) = None \<and>
           current_count c < max_employees c \<and>
           res = (generateRegistrationId (sanitizeInput n) cid, ACCEPTED) \<and>
           t' = transactWrite
                  (registerWrites ts cid (generateRegistrationId (sanitizeInput n) cid)
                     (sanitizeInput n) (sanitizeInput e)) t \<and>
           isValidCourseIdFormat cid \<and> isValidEmail (sanitizeInput e) \<and>
           \<not> isEmptyAfterTrim n \<and> \<not> isEmptyAfterTrim e"
  using assms
  by (auto simp: registerForCourse_def Let_def split: option.splits if_splits)

lemma cancelRegistration_Inl: "cancelRegistration t rid = (t', Inl f) \<Longrightarrow> t' = t"
  by (auto simp: cancelRegistration_def Let_def split: option.splits if_splits item.splits)

lemma cancelRegistration_Inr:
  assumes "cancelRegistration t rid = (t', Inr res)"
  shows "\<exists>c it. isValidRegistrationIdFormat rid \<and>
           getItem t (coursePK (extractCourseIdFromRegistration rid), regSK rid) = Some it \<and>
           getCourse t (extractCourseIdFromRegistration rid) = Some c \<and>
           ((is_allotted c \<and> t' = t \<and>
             res = (rid, extractCourseIdFromRegistration rid, CANCEL_REJECTED)) \<or>
            (\<not> is_allotted c \<and>
             (\<exists>reg. it = Registration reg \<and>
                t' = transactWrite (cancelWrites (extractCourseIdFromRegistration rid) rid reg) t) \<and>
             res = (rid, extractCourseIdFromRegistration rid, CANCEL_ACCEPTED)))"
  using assms
  by (auto simp: cancelRegistration_def Let_def split: option.splits if_splits item.splits)

lemma allotCourse_Inl: "allotCourse lc today t cid = (t', Inl f) \<Longrightarrow> t' = t"
  by (auto simp: allotCourse_def Let_def split: option.splits if_splits)

lemma allotCourse_Inr:
  assumes "allotCourse lc today t cid = (t', Inr res)"
  shows "\<exists>c. isValidCourseIdFormat cid \<and> getCourse t cid = Some c \<and>
           \<not> startDatePassed today (start_date c) \<and> \<not> is_allotted c \<and>
           t' = transactWrite
                  (allotWrites cid (registrationsOf (query t (coursePK cid) ''REG#''))
                     (finalStatusOf (registrationsOf (query t (coursePK cid) ''REG#'')) c)) t \<and>
           snd res = sortByRegistrationId lc
             (map (\<lambda>reg. \<lparr>out_registration_id = registration_id reg,
                           out_email = email reg,
                           out_course_name = course_name c,
                           out_course_id = cid,
                           out_status = finalStatusOf (registrationsOf (query t (coursePK cid) ''REG#'')) c\<rparr>)
                (registrationsOf (query t (coursePK cid) ''REG#'')))"
  using assms
  by (auto simp: allotCourse_def Let_def split: option.splits if_splits)

lemma addCourseOffering_Inl: "addCourseOffering today t cn ins sd mn mx = (t', Inl f) \<Longrightarrow> t' = t"
  by (auto simp: addCourseOffering_def Let_def split: option.splits if_splits)

lemma addCourseOffering_Inr:
  assumes "addCourseOffering today t cn ins sd mn mx = (t', Inr cid)"
  shows "\<exists>minE maxE. mn = Some minE \<and> mx = Some maxE \<and> 0 \<le> minE \<and> minE \<le> maxE \<and>
           cid = generateCourseId (sanitizeInput cn) (sanitizeInput ins) \<and>
           isValidDateFormat (sanitizeInput sd) \<and>
           getItem t (coursePK cid, ''METADATA'') = None \<and>
           t' = AList.update (coursePK cid, ''METADATA'')
                  (Course \<lparr>course_id = cid, course_name = sanitizeInput cn,
                           instructor_name = sanitizeInput ins, start_date = sanitizeInput sd,
                           min_employees = minE, max_employees = maxE, current_count = 0,
                           is_allotted = False, course_status = None\<rparr>) t"
  using assms
  by (auto simp: addCourseOffering_def Let_def split: option.splits if_splits)

lemma allotted_register:
  "allotted t cid \<Longrightarrow> allotted (fst (registerForCourse ts t cid' n e)) cid"
proof -
  assume a: "allotted t cid"
  obtain t' r where eq: "registerForCourse ts t cid' n e = (t', r)" by fastforce
  show ?thesis
  proof (cases r)
    case (Inl f)
    with eq registerForCourse_Inl show ?thesis using a by fastforce
  next
    case (Inr res)
    with eq registerForCourse_Inr [of ts t cid' n e t' res]
    show ?thesis using a
      by (auto intro!: allotted_transactWrite keepsAllotted_registerWrites)
  qed
qed

lemma allotted_cancel:
  "allotted t cid \<Longrightarrow> allotted (fst (cancelRegistration t rid)) cid"
proof -
  assume a: "allotted t cid"
  obtain t' r where eq: "cancelRegistration t rid = (t', r)" by fastforce
  show ?thesis
  proof (cases r)
    case (Inl f)
    with eq cancelRegistration_Inl show ?thesis using a by fastforce
  next
    case (Inr res)
    with eq cancelRegistration_Inr [of t rid t' res]
    show ?thesis using a
      by (auto intro!: allotted_transactWrite keepsAllotted_cancelWrites)
  qed
qed

lemma allotted_allot:
  "allotted t cid \<Longrightarrow> allotted (fst (allotCourse lc today t cid')) cid"
proof -
  assume a: "allotted t cid"
  obtain t' r where eq: "allotCourse lc today t cid' = (t', r)" by fastforce
  show ?thesis
  proof (cases r)
    case (Inl f)
    with eq allotCourse_Inl show ?thesis using a by fastforce
  next
    case (Inr res)
    with eq allotCourse_Inr [of lc today t cid' t' res]
    show ?thesis using a
      by (auto intro!: allotted_transactWrite keepsAllotted_allotWrites)
  qed
qed

lemma allotted_add:
  "allotted t cid \<Longrightarrow> allotted (fst (addCourseOffering today t cn ins sd mn mx)) cid"
proof -
  assume a: "allotted t cid"
  obtain t' r where eq: "addCourseOffering today t cn ins sd mn mx = (t', r)" by fastforce
  show ?thesis
  proof (cases r)
    case (Inl f)
    with eq addCourseOffering_Inl show ?thesis using a by fastforce
  next
    case (Inr cid')
    with eq addCourseOffering_Inr [of today t cn ins sd mn mx t' cid']
    obtain c where fresh: "getItem t (coursePK cid', ''METADATA'') = None"
      and t': "t' = AList.update (coursePK cid', ''METADATA'') (Course c) t"
      by blast
    from a fresh have "cid \<noteq> cid'"
      by (auto simp: allotted_def getCourse_def)
    with a t' eq show ?thesis
      by (simp add: allotted_def getCourse_update)
  qed
qed

lemma allotted_handle: "allotted t cid \<Longrightarrow> allotted (handle lc t req) cid"
  by (cases req) (simp_all add: allotted_register allotted_cancel allotted_allot allotted_add)

lemma allotted_serve: "allotted t cid \<Longrightarrow> allotted (serve lc t reqs) cid"
  by (induction reqs arbitrary: t) (simp_all add: allotted_handle)


lemma mayAllot_registerWrites: "\<forall>w \<in> set (registerWrites ts cid' rid n e). \<not> mayAllot cid w"
  by (simp add: registerWrites_def)

lemma mayAllot_cancelWrites: "\<forall>w \<in> set (cancelWrites cid' rid r). \<not> mayAllot cid w"
  by (simp add: cancelWrites_def)

lemma mayAllot_allotWrites: "cid \<noteq> cid' \<Longrightarrow> \<forall>w \<in> set (allotWrites cid' regs st). \<not> mayAllot cid w"
  by (auto simp: allotWrites_def)

lemma newly_allotted_handle:
  assumes "allotted (handle lc t req) cid"
  shows "allotted t cid \<or> isValidCourseIdFormat cid"
proof (cases req)
  case (AddCourseOffering today cn ins sd mn mx)
  obtain t' r where eq: "addCourseOffering today t cn ins sd mn mx = (t', r)" by fastforce
  show ?thesis
  proof (cases r)
    case (Inl f)
    with eq addCourseOffering_Inl AddCourseOffering assms show ?thesis by fastforce
  next
    case (Inr cid')
    with eq addCourseOffering_Inr [of today t cn ins sd mn mx t' cid']
    obtain c where t': "t' = AList.update (coursePK cid', ''METADATA'') (Course c) t"
      and c: "\<not> is_allotted c"
      by auto
    with assms AddCourseOffering eq show ?thesis
      by (auto simp: allotted_def getCourse_update split: if_splits)
  qed
next
  case (AllotCourse today cid')
  obtain t' r where eq: "allotCourse lc today t cid' = (t', r)" by fastforce
  show ?thesis
  proof (cases r)
    case (Inl f)
    with eq allotCourse_Inl AllotCourse assms show ?thesis by fastforce
  next
    case (Inr res)
    note ar = allotCourse_Inr [OF eq [unfolded Inr]]
    show ?thesis
    proof (cases "cid = cid'")
      case True
      with ar show ?thesis by blast
    next
      case False
      from ar obtain ws where t': "t' = transactWrite (allotWrites cid' (fst ws) (snd ws)) t"
        by fastforce
      have "allotted t' cid" using assms AllotCourse eq by simp
      with t' mayAllot_allotWrites [OF False] show ?thesis
        using allotted_transactWrite_rev by blast
    qed
  qed
next
  case (RegisterForCourse ts cid' n e)
  obtain t' r where eq: "registerForCourse ts t cid' n e = (t', r)" by fastforce
  show ?thesis
  proof (cases r)
    case (Inl f)
    with eq registerForCourse_Inl RegisterForCourse assms show ?thesis by fastforce
  next
    case (Inr res)
    from registerForCourse_Inr [OF eq [unfolded Inr]]
    obtain rid n' e' where t': "t' = transactWrite (registerWrites ts cid' rid n' e') t"
      by blast
    have "allotted t' cid" using assms RegisterForCourse eq by simp
    with t' mayAllot_registerWrites show ?thesis
      using allotted_transactWrite_rev by blast
  qed
next
  case (CancelRegistration rid)
  obtain t' r where eq: "cancelRegistration t rid = (t', r)" by fastforce
  have a': "allotted t' cid" using assms CancelRegistration eq by simp
  show ?thesis
  proof (cases r)
    case (Inl f)
    with eq cancelRegistration_Inl a' show ?thesis by fastforce
  next
    case (Inr res)
    from cancelRegistration_Inr [OF eq [unfolded Inr]]
    have "t' = t \<or> (\<exists>cid' reg. t' = transactWrite (cancelWrites cid' rid reg) t)"
      by blast
    with a' mayAllot_cancelWrites show ?thesis
      using allotted_transactWrite_rev by blast
  qed
qed

lemma allotted_serve_valid:
  "\<forall>cid. allotted t cid \<longrightarrow> isValidCourseIdFormat cid \<Longrightarrow>
   allotted (serve lc t reqs) cid \<Longrightarrow> isValidCourseIdFormat cid"
proof (induction reqs arbitrary: t)
  case Nil
  then show ?case by simp
next
  case (Cons req reqs)
  have "\<forall>cid. allotted (handle lc t req) cid \<longrightarrow> isValidCourseIdFormat cid"
    using Cons.prems(1) newly_allotted_handle by blast
  with Cons show ?case by simp
qed

lemma allotted_empty: "\<not> allotted [] cid"
  by (simp add: allotted_def getCourse_def getItem_def)

lemma allot_on_allotted:
  "isValidCourseIdFormat cid \<Longrightarrow> allotted t cid \<Longrightarrow>
   allotCourse lc today t cid = (t, Inl (400, ''COURSE_ALLOT_DATE_ERROR'')) \<or>
   allotCourse lc today t cid = (t, Inl (400, ''Course already allotted''))"
  by (auto simp: allotCourse_def allotted_def isValidCourseIdFormat_def split: option.splits)

section \<open>Allotment is terminal\<close>

text \<open>
  Claim C8. In every table the controllers can build from the empty table, a course that
  is allotted stays allotted whatever requests follow, and a further \<open>allotCourse\<close> on it
  fails with status 400, either with \<open>COURSE_ALLOT_DATE_ERROR\<close> (the date check comes
  first) or with \<open>Course already allotted\<close>, and returns the table unchanged.
\<close>

theorem C8_allot_terminal:
  assumes "allotted (serve lc [] reqs) cid"
  shows "(allotCourse lc' today (serve lc [] reqs) cid
            = (serve lc [] reqs, Inl (400, ''COURSE_ALLOT_DATE_ERROR'')) \<or>
          allotCourse lc' today (serve lc [] reqs) cid
            = (serve lc [] reqs, Inl (400, ''Course already allotted''))) \<and>
         allotted (serve lc (serve lc [] reqs) reqs') cid"
proof -
  have "isValidCourseIdFormat cid"
    using allotted_serve_valid [of "[]" lc reqs cid] assms allotted_empty by blast
  with assms show ?thesis
    using allot_on_allotted allotted_serve by blast
qed

theorem C8_allot_terminal_witness:
  "allotted (serve localeCompare []
      [addJava 1 2, registerJava ''Andy'' ''andy@gmail.com'', AllotCourse 22001 ''OFFERING-JAVA-JAMES''])
      ''OFFERING-JAVA-JAMES'' \<and>
   (allotCourse localeCompare 22002
      (serve localeCompare []
        [addJava 1 2, registerJava ''Andy'' ''andy@gmail.com'', AllotCourse 22001 ''OFFERING-JAVA-JAMES''])
      ''OFFERING-JAVA-JAMES''
      = (serve localeCompare []
          [addJava 1 2, registerJava ''Andy'' ''andy@gmail.com'', AllotCourse 22001 ''OFFERING-JAVA-JAMES''],
         Inl (400, ''COURSE_ALLOT_DATE_ERROR'')) \<or>
    allotCourse localeCompare 22002
      (serve localeCompare []
        [addJava 1 2, registerJava ''Andy'' ''andy@gmail.com'', AllotCourse 22001 ''OFFERING-JAVA-JAMES''])
      ''OFFERING-JAVA-JAMES''
      = (serve localeCompare []
          [addJava 1 2, registerJava ''Andy'' ''andy@gmail.com'', AllotCourse 22001 ''OFFERING-JAVA-JAMES''],
         Inl (400, ''Course already allotted''))) \<and>
   allotted (serve localeCompare
      (serve localeCompare []
        [addJava 1 2, registerJava ''Andy'' ''andy@gmail.com'', AllotCourse 22001 ''OFFERING-JAVA-JAMES''])
      [CancelRegistration ''ANDY-OFFERING-JAVA-JAMES'', addJava 0 5])
      ''OFFERING-JAVA-JAMES''"
proof -
  have h: "allotted (serve localeCompare []
      [addJava 1 2, registerJava ''Andy'' ''andy@gmail.com'', AllotCourse 22001 ''OFFERING-JAVA-JAMES''])
      ''OFFERING-JAVA-JAMES''"
    by code_simp
  show ?thesis
    using h C8_allot_terminal [OF h] by blast
qed

section \<open>Effects of registration and cancellation\<close>

lemma inPartition_reg [simp]:
  "inPartition (coursePK c) ''REG#'' (coursePK cid, regSK rid) = (c = cid)"
  by (auto simp: inPartition_def)

lemma inPartition_employee [simp]:
  "\<not> inPartition (coursePK c) pre (employeePK e, sk)"
  by (simp add: inPartition_def)

lemma getItem_None_keys: "(getItem t k = None) = (k \<notin> set (map fst t))"
  by (simp add: getItem_def map_of_eq_None_iff)

lemma registerWrites_getItem:
  "getItem (transactWrite (registerWrites ts cid rid n e) t) k =
     (if k = (coursePK cid, ''METADATA'') then map_option (addCurrentCount 1) (getItem t k)
      else if k = (employeePK (toUpperCase e), courseSK cid) then
        Some (EmployeeCourse \<lparr>emp_registration_id = rid, emp_employee_name = n,
                emp_course_id = cid, emp_status = ACCEPTED\<rparr>)
      else if k = (coursePK cid, regSK rid) then
        Some (Registration \<lparr>registration_id = rid, employee_name = n, email = e,
                reg_course_id = cid, status = ACCEPTED, created_at = ts\<rparr>)
      else getItem t k)"
  by (simp add: registerWrites_def getItem_applyWrite)

lemma registerWrites_getCourse:
  "getCourse (transactWrite (registerWrites ts cid rid n e) t) cid' =
     (if cid' = cid
      then map_option (\<lambda>c. c\<lparr>current_count := current_count c + 1\<rparr>) (getCourse t cid)
      else getCourse t cid')"
  by (simp add: registerWrites_def getCourse_applyWrite)

lemma registerWrites_keys:
  "map fst (transactWrite (registerWrites ts cid rid n e) t) =
     map fst t
     @ (if getItem t (coursePK cid, regSK rid) = None then [(coursePK cid, regSK rid)] else [])
     @ (if getItem t (employeePK (toUpperCase e), courseSK cid) = None
        then [(employeePK (toUpperCase e), courseSK cid)] else [])"
  by (simp add: registerWrites_def keys_applyWrite getItem_applyWrite)

lemma registerWrites_count:
  "registrationCount (transactWrite (registerWrites ts cid rid n e) t) cid' =
     registrationCount t cid' +
     (if cid' = cid \<and> getItem t (coursePK cid, regSK rid) = None then 1 else 0)"
  by (simp add: registrationCount_keys registerWrites_keys)

lemma cancelWrites_getItem:
  "getItem (transactWrite (cancelWrites cid rid reg) t) k =
     (if k = (coursePK cid, ''METADATA'') then map_option (addCurrentCount (- 1)) (getItem t k)
      else if k = (employeePK (toUpperCase (email reg)), courseSK cid) then None
      else if k = (coursePK cid, regSK rid) then None
      else getItem t k)"
  by (simp add: cancelWrites_def getItem_applyWrite)

lemma cancelWrites_getCourse:
  "getCourse (transactWrite (cancelWrites cid rid reg) t) cid' =
     (if cid' = cid
      then map_option (\<lambda>c. c\<lparr>current_count := current_count c + (- 1)\<rparr>) (getCourse t cid)
      else getCourse t cid')"
  by (simp add: cancelWrites_def getCourse_applyWrite)

lemma cancelWrites_keys:
  "map fst (transactWrite (cancelWrites cid rid reg) t) =
     removeAll (employeePK (toUpperCase (email reg)), courseSK cid)
       (removeAll (coursePK cid, regSK rid) (map fst t))"
  by (simp add: cancelWrites_def keys_applyWrite)

lemma cancelWrites_count:
  assumes "distinct (map fst t)" and "getItem t (coursePK cid, regSK rid) \<noteq> None"
  shows "registrationCount (transactWrite (cancelWrites cid rid reg) t) cid' +
           (if cid' = cid then 1 else 0) = registrationCount t cid'"
proof -
  have mem: "(coursePK cid, regSK rid) \<in> set (map fst t)"
    using assms(2) by (simp add: getItem_None_keys)
  show ?thesis
  proof (cases "cid' = cid")
    case True
    then show ?thesis
      using length_filter_removeAll [OF assms(1) mem, of "inPartition (coursePK cid) ''REG#''"]
      by (simp add: registrationCount_keys cancelWrites_keys filter_removeAll_other)
  next
    case False
    then show ?thesis
      by (simp add: registrationCount_keys cancelWrites_keys filter_removeAll_other)
  qed
qed

lemma registrationStep_invariant:
  assumes "registrationStep t t'" and "distinct (map fst t)" and "countInvariant t"
  shows "distinct (map fst t') \<and> countInvariant t'"
  using assms
proof (induction rule: registrationStep.induct)
  case (registered createdAt t cid employeeName emailAddr t' rid st)
  from registerForCourse_Inr [OF registered(1)]
  have t': "t' = transactWrite (registerWrites createdAt cid rid (sanitizeInput employeeName)
               (sanitizeInput emailAddr)) t"
    by auto
  have "countInvariant t'"
    unfolding countInvariant_def
  proof (intro allI impI)
    fix cid' c'
    assume g: "getCourse t' cid' = Some c'"
    show "current_count c' = int (registrationCount t' cid')"
    proof (cases "cid' = cid")
      case True
      with g t' obtain c where c: "getCourse t cid = Some c"
        and c': "c' = c\<lparr>current_count := current_count c + 1\<rparr>"
        by (auto simp: registerWrites_getCourse)
      from c registered(4) have "current_count c = int (registrationCount t cid)"
        by (simp add: countInvariant_def)
      with c' True t' registered(2) show ?thesis
        by (simp add: registerWrites_count)
    next
      case False
      with g t' have "getCourse t cid' = Some c'"
        by (simp add: registerWrites_getCourse)
      with registered(4) have "current_count c' = int (registrationCount t cid')"
        by (simp add: countInvariant_def)
      with False t' show ?thesis by (simp add: registerWrites_count)
    qed
  qed
  moreover have "distinct (map fst t')"
    using t' registered(3) by (simp add: distinct_transactWrite)
  ultimately show ?case by simp
next
  case (cancelled t rid t' res)
  from cancelRegistration_Inr [OF cancelled(1)]
  obtain it where it: "getItem t (coursePK (extractCourseIdFromRegistration rid), regSK rid) = Some it"
    and alt: "t' = t \<or> (\<exists>reg. t' = transactWrite
                 (cancelWrites (extractCourseIdFromRegistration rid) rid reg) t)"
    by blast
  from alt show ?case
  proof
    assume "t' = t"
    with cancelled show ?thesis by simp
  next
    assume "\<exists>reg. t' = transactWrite (cancelWrites (extractCourseIdFromRegistration rid) rid reg) t"
    then obtain reg where t': "t' = transactWrite
        (cancelWrites (extractCourseIdFromRegistration rid) rid reg) t" by blast
    let ?cid = "extractCourseIdFromRegistration rid"
    have cnt: "\<And>cid'. registrationCount t' cid' + (if cid' = ?cid then 1 else 0)
                  = registrationCount t cid'"
      using cancelWrites_count [OF cancelled(2), of ?cid rid reg] it t' by simp
    have "countInvariant t'"
      unfolding countInvariant_def
    proof (intro allI impI)
      fix cid' c'
      assume g: "getCourse t' cid' = Some c'"
      show "current_count c' = int (registrationCount t' cid')"
      proof (cases "cid' = ?cid")
        case True
        with g t' obtain c where c: "getCourse t ?cid = Some c"
          and c': "c' = c\<lparr>current_count := current_count c + (- 1)\<rparr>"
          by (auto simp: cancelWrites_getCourse)
        from c cancelled(3) have "current_count c = int (registrationCount t ?cid)"
          by (simp add: countInvariant_def)
        with c' True cnt [of ?cid] show ?thesis by simp
      next
        case False
        with g t' have "getCourse t cid' = Some c'"
          by (simp add: cancelWrites_getCourse)
        with cancelled(3) have "current_count c' = int (registrationCount t cid')"
          by (simp add: countInvariant_def)
        with False cnt [of cid'] show ?thesis by simp
      qed
    qed
    moreover have "distinct (map fst t')"
      using t' cancelled(2) by (simp add: distinct_transactWrite)
    ultimately show ?thesis by simp
  qed
qed

section \<open>The counter and the registration rows\<close>

text \<open>
  Claim C3, as the code has it. From a table with one item per key in which every course's
  \<open>current_count\<close> equals the number of registration rows of its partition, every
  sequence of successful registrations and cancellations leads to a table with the same
  property, provided that no registration derives a registration id already stored under
  its course. The sequences are those of the relation \<open>registrationStep\<close>; every prefix
  of a sequence is a sequence, so the equality holds after each operation.
\<close>

theorem C3_count_invariant:
  assumes "registrationStep\<^sup>*\<^sup>* t t'" and "distinct (map fst t)" and "countInvariant t"
  shows "countInvariant t'"
proof -
  from assms have "distinct (map fst t') \<and> countInvariant t'"
  proof (induction rule: rtranclp_induct)
    case base
    then show ?case by simp
  next
    case (step y z)
    then show ?case using registrationStep_invariant by blast
  qed
  then show ?thesis by simp
qed

lemma countInvariant_single:
  "countInvariant [((coursePK cid, ''METADATA''), Course c)] = (current_count c = 0)"
  by (auto simp: countInvariant_def getCourse_def getItem_def registrationCount_keys
      inPartition_def)

theorem C3_count_invariant_witness:
  "registrationStep\<^sup>*\<^sup>*
     (serve localeCompare [] [addJava 1 5])
     (serve localeCompare []
        [addJava 1 5, registerJava ''Andy'' ''andy@gmail.com'',
         registerJava ''Jhon'' ''jhon@gmail.com'',
         CancelRegistration ''ANDY-OFFERING-JAVA-JAMES'']) \<and>
   distinct (map fst (serve localeCompare [] [addJava 1 5])) \<and>
   countInvariant (serve localeCompare [] [addJava 1 5]) \<and>
   countInvariant (serve localeCompare []
        [addJava 1 5, registerJava ''Andy'' ''andy@gmail.com'',
         registerJava ''Jhon'' ''jhon@gmail.com'',
         CancelRegistration ''ANDY-OFFERING-JAVA-JAMES''])"
proof -
  let ?t0 = "serve localeCompare [] [addJava 1 5]"
  let ?t1 = "serve localeCompare [] [addJava 1 5, registerJava ''Andy'' ''andy@gmail.com'']"
  let ?t2 = "serve localeCompare [] [addJava 1 5, registerJava ''Andy'' ''andy@gmail.com'',
         registerJava ''Jhon'' ''jhon@gmail.com'']"
  let ?t3 = "serve localeCompare [] [addJava 1 5, registerJava ''Andy'' ''andy@gmail.com'',
         registerJava ''Jhon'' ''jhon@gmail.com'',
         CancelRegistration ''ANDY-OFFERING-JAVA-JAMES'']"
  have r1: "registerForCourse ''2030-01-01T08:00:00.000Z'' ?t0 ''OFFERING-JAVA-JAMES''
              ''Andy'' ''andy@gmail.com'' = (?t1, Inr (''ANDY-OFFERING-JAVA-JAMES'', ACCEPTED))"
    by code_simp
  have f1: "getItem ?t0 (coursePK ''OFFERING-JAVA-JAMES'', regSK ''ANDY-OFFERING-JAVA-JAMES'') = None"
    by code_simp
  have r2: "registerForCourse ''2030-01-01T08:00:00.000Z'' ?t1 ''OFFERING-JAVA-JAMES''
              ''Jhon'' ''jhon@gmail.com'' = (?t2, Inr (''JHON-OFFERING-JAVA-JAMES'', ACCEPTED))"
    by code_simp
  have f2: "getItem ?t1 (coursePK ''OFFERING-JAVA-JAMES'', regSK ''JHON-OFFERING-JAVA-JAMES'') = None"
    by code_simp
  have r3: "cancelRegistration ?t2 ''ANDY-OFFERING-JAVA-JAMES''
              = (?t3, Inr (''ANDY-OFFERING-JAVA-JAMES'', ''OFFERING-JAVA-JAMES'', CANCEL_ACCEPTED))"
    by code_simp
  have s1: "registrationStep ?t0 ?t1" using r1 f1 by (rule registrationStep.registered)
  have s2: "registrationStep ?t1 ?t2" using r2 f2 by (rule registrationStep.registered)
  have s3: "registrationStep ?t2 ?t3" using r3 by (rule registrationStep.cancelled)
  have steps: "registrationStep\<^sup>*\<^sup>* ?t0 ?t3"
    using s1 s2 s3 by (meson rtranclp.rtrancl_into_rtrancl rtranclp.rtrancl_refl)
  have t0: "?t0 = [((coursePK ''OFFERING-JAVA-JAMES'', ''METADATA''),
      Course \<lparr>course_id = ''OFFERING-JAVA-JAMES'', course_name = ''JAVA'',
          instructor_name = ''JAMES'', start_date = ''15062030'', min_employees = 1,
          max_employees = 5, current_count = 0, is_allotted = False,
          course_status = None\<rparr>)]"
    by code_simp
  have d: "distinct (map fst ?t0)" by (simp only: t0) simp
  have i: "countInvariant ?t0" by (simp only: t0 countInvariant_single) simp
  show ?thesis
    using steps d i C3_count_invariant [OF steps d i] by simp
qed

text \<open>
  Claim C3 as stated fails when two employees share a name: the second registration of an
  Andy, under another email address, is accepted and overwrites the first one's by-course
  row, so the counter is 2 over a single registration row.
\<close>

theorem C3_count_invariant_counterexample:
  "snd (registerForCourse ''2030-01-01T08:00:00.000Z'' (serve localeCompare [] [addJava 1 5])
          ''OFFERING-JAVA-JAMES'' ''Andy'' ''andy@gmail.com'')
     = Inr (''ANDY-OFFERING-JAVA-JAMES'', ACCEPTED) \<and>
   snd (registerForCourse ''2030-01-01T08:00:00.000Z''
          (serve localeCompare [] [addJava 1 5, registerJava ''Andy'' ''andy@gmail.com''])
          ''OFFERING-JAVA-JAMES'' ''Andy'' ''andy.b@gmail.com'')
     = Inr (''ANDY-OFFERING-JAVA-JAMES'', ACCEPTED) \<and>
   map_option current_count
     (getCourse (serve localeCompare []
        [addJava 1 5, registerJava ''Andy'' ''andy@gmail.com'',
         registerJava ''Andy'' ''andy.b@gmail.com'']) ''OFFERING-JAVA-JAMES'') = Some 2 \<and>
   registrationCount (serve localeCompare []
        [addJava 1 5, registerJava ''Andy'' ''andy@gmail.com'',
         registerJava ''Andy'' ''andy.b@gmail.com'']) ''OFFERING-JAVA-JAMES'' = 1"
  by code_simp

lemma set_trim: "set (trim s) \<subseteq> set s"
proof -
  have "set (dropWhile isWhiteSpace (rev (dropWhile isWhiteSpace s)))
          \<subseteq> set (rev (dropWhile isWhiteSpace s))"
    by (meson set_dropWhileD subsetI)
  also have "\<dots> \<subseteq> set s"
    using set_dropWhileD [of _ isWhiteSpace s] by auto
  finally show ?thesis by (simp add: trim_def)
qed

lemma set_sanitizeInput: "set (sanitizeInput s) \<subseteq> set s"
  using set_trim [of s] by (simp add: sanitizeInput_def)

lemma register_id_course:
  assumes "registerForCourse ts t cid n e = (t1, Inr (rid, st))"
    and "CHR ''-'' \<notin> set n"
  shows "extractCourseIdFromRegistration rid = cid"
proof -
  from registerForCourse_Inr [OF assms(1)]
  have rid: "rid = generateRegistrationId (sanitizeInput n) cid" by auto
  have "CHR ''-'' \<notin> set (sanitizeInput n)"
    using assms(2) set_sanitizeInput [of n] by blast
  with rid show ?thesis by (simp add: extract_generate_plain)
qed

lemma addCurrentCount_inverse: "addCurrentCount (- 1) (addCurrentCount 1 it) = it"
  by (cases it) (simp_all add: addCurrentCount_def)

section \<open>Registration followed by cancellation\<close>

text \<open>
  Claim C4, as the code has it. A successful registration followed by an accepted
  cancellation of the registration id it returned, where the cancellation addresses the
  course registered for (it always does when the employee name has no hyphen), leaves the
  course row as it was before the registration, \<open>current_count\<close> included, and leaves
  neither the by-course row nor the by-employee row. When the registration id was not
  stored before, the table is back to its prior state: the same keys with the same items.
\<close>

theorem C4_register_cancel:
  assumes reg: "registerForCourse ts t cid employeeName emailAddr = (t1, Inr (rid, st))"
    and can: "cancelRegistration t1 rid = (t2, Inr (rid', cid', CANCEL_ACCEPTED))"
    and same: "CHR ''-'' \<notin> set employeeName \<or> cid' = cid"
  shows "getCourse t2 cid = getCourse t cid \<and>
         getItem t2 (coursePK cid, regSK rid) = None \<and>
         getItem t2 (employeePK (toUpperCase (sanitizeInput emailAddr)), courseSK cid) = None \<and>
         (getItem t (coursePK cid, regSK rid) = None \<longrightarrow>
            (\<forall>k. getItem t2 k = getItem t k) \<and> map fst t2 = map fst t)"
proof -
  let ?n = "sanitizeInput employeeName"
  let ?e = "sanitizeInput emailAddr"
  from registerForCourse_Inr [OF reg]
  obtain c where c: "getCourse t cid = Some c"
    and freshE: "getItem t (employeePK (toUpperCase ?e), courseSK cid) = None"
    and t1: "t1 = transactWrite (registerWrites ts cid rid ?n ?e) t"
    by auto
  from cancelRegistration_Inr [OF can]
  obtain it reg' where cid': "cid' = extractCourseIdFromRegistration rid"
    and it: "getItem t1 (coursePK cid', regSK rid) = Some it"
    and reg': "it = Registration reg'"
    and t2: "t2 = transactWrite (cancelWrites cid' rid reg') t1"
    by auto
  have eq: "cid' = cid"
    using same cid' register_id_course [OF reg] by blast
  have e: "email reg' = ?e"
    using it reg' t1 eq by (auto simp: registerWrites_getItem)
  have item: "\<And>k. getItem t2 k =
      (if k = (coursePK cid, regSK rid) \<or> k = (employeePK (toUpperCase ?e), courseSK cid)
       then None else getItem t k)"
    using t1 t2 eq e
    by (auto simp: cancelWrites_getItem registerWrites_getItem option.map_comp comp_def
        addCurrentCount_inverse option.map_ident)
  have course: "getCourse t2 cid = getCourse t cid"
    using item [of "(coursePK cid, ''METADATA'')"] by (simp add: getCourse_def)
  have keys: "getItem t (coursePK cid, regSK rid) = None \<Longrightarrow> map fst t2 = map fst t"
    using t1 t2 eq e freshE
    by (simp add: cancelWrites_keys registerWrites_keys getItem_None_keys)
  show ?thesis
    using item course keys freshE by simp
qed

theorem C4_register_cancel_witness:
  "registerForCourse ''2030-01-01T08:00:00.000Z'' (serve localeCompare [] [addJava 1 2])
     ''OFFERING-JAVA-JAMES'' ''Andy'' ''andy@gmail.com''
     = (serve localeCompare [] [addJava 1 2, registerJava ''Andy'' ''andy@gmail.com''],
        Inr (''ANDY-OFFERING-JAVA-JAMES'', ACCEPTED)) \<and>
   cancelRegistration
     (serve localeCompare [] [addJava 1 2, registerJava ''Andy'' ''andy@gmail.com''])
     ''ANDY-OFFERING-JAVA-JAMES''
     = (serve localeCompare []
          [addJava 1 2, registerJava ''Andy'' ''andy@gmail.com'',
           CancelRegistration ''ANDY-OFFERING-JAVA-JAMES''],
        Inr (''ANDY-OFFERING-JAVA-JAMES'', ''OFFERING-JAVA-JAMES'', CANCEL_ACCEPTED)) \<and>
   CHR ''-'' \<notin> set ''Andy'' \<and>
   getItem (serve localeCompare [] [addJava 1 2])
     (coursePK ''OFFERING-JAVA-JAMES'', regSK ''ANDY-OFFERING-JAVA-JAMES'') = None \<and>
   getCourse (serve localeCompare []
          [addJava 1 2, registerJava ''Andy'' ''andy@gmail.com'',
           CancelRegistration ''ANDY-OFFERING-JAVA-JAMES'']) ''OFFERING-JAVA-JAMES''
     = getCourse (serve localeCompare [] [addJava 1 2]) ''OFFERING-JAVA-JAMES'' \<and>
   getItem (serve localeCompare []
          [addJava 1 2, registerJava ''Andy'' ''andy@gmail.com'',
           CancelRegistration ''ANDY-OFFERING-JAVA-JAMES''])
     (coursePK ''OFFERING-JAVA-JAMES'', regSK ''ANDY-OFFERING-JAVA-JAMES'') = None \<and>
   getItem (serve localeCompare []
          [addJava 1 2, registerJava ''Andy'' ''andy@gmail.com'',
           CancelRegistration ''ANDY-OFFERING-JAVA-JAMES''])
     (employeePK (toUpperCase (sanitizeInput ''andy@gmail.com'')), courseSK ''OFFERING-JAVA-JAMES'')
     = None \<and>
   map fst (serve localeCompare []
          [addJava 1 2, registerJava ''Andy'' ''andy@gmail.com'',
           CancelRegistration ''ANDY-OFFERING-JAVA-JAMES''])
     = map fst (serve localeCompare [] [addJava 1 2])"
proof -
  have r: "registerForCourse ''2030-01-01T08:00:00.000Z'' (serve localeCompare [] [addJava 1 2])
     ''OFFERING-JAVA-JAMES'' ''Andy'' ''andy@gmail.com''
     = (serve localeCompare [] [addJava 1 2, registerJava ''Andy'' ''andy@gmail.com''],
        Inr (''ANDY-OFFERING-JAVA-JAMES'', ACCEPTED))"
    by code_simp
  have c: "cancelRegistration
     (serve localeCompare [] [addJava 1 2, registerJava ''Andy'' ''andy@gmail.com''])
     ''ANDY-OFFERING-JAVA-JAMES''
     = (serve localeCompare []
          [addJava 1 2, registerJava ''Andy'' ''andy@gmail.com'',
           CancelRegistration ''ANDY-OFFERING-JAVA-JAMES''],
        Inr (''ANDY-OFFERING-JAVA-JAMES'', ''OFFERING-JAVA-JAMES'', CANCEL_ACCEPTED))"
    by code_simp
  have n: "CHR ''-'' \<notin> set ''Andy''" by simp
  then have h: "CHR ''-'' \<notin> set ''Andy'' \<or> ''OFFERING-JAVA-JAMES'' = ''OFFERING-JAVA-JAMES''"
    by (rule disjI1)
  have f: "getItem (serve localeCompare [] [addJava 1 2])
     (coursePK ''OFFERING-JAVA-JAMES'', regSK ''ANDY-OFFERING-JAVA-JAMES'') = None"
    by code_simp
  show ?thesis
    using r c n f C4_register_cancel [OF r c h] by blast
qed

text \<open>
  Claim C4 as stated fails at two inputs. First, the cancellation may address another
  course. Bob is registered for the course \<open>OFFERING-OFFERING-JAVA-JAMES\<close> (course name
  OFFERING-JAVA); then the employee Bob-Offering registers for \<open>OFFERING-JAVA-JAMES\<close>
  and receives the same registration id. Cancelling that id is accepted, and it removes
  Bob's registration from the other course: the new registration's two rows remain, and
  the counter of the course registered for stays at 1. Second, the pair is not a round
  trip when the registration id was stored before: a second Andy registers and cancels,
  and the by-course row that the first Andy had before is gone.
\<close>

theorem C4_register_cancel_counterexample:
  "map_option current_count
     (getCourse (serve localeCompare []
        [addJava 1 2,
         AddCourseOffering 22000 ''OFFERING-JAVA'' ''JAMES'' ''15062030'' (Some 1) (Some 2),
         RegisterForCourse ''2030-01-01T08:00:00.000Z'' ''OFFERING-OFFERING-JAVA-JAMES''
           ''Bob'' ''bob@gmail.com'']) ''OFFERING-JAVA-JAMES'') = Some 0 \<and>
   snd (registerForCourse ''2030-01-01T08:00:00.000Z''
     (serve localeCompare []
        [addJava 1 2,
         AddCourseOffering 22000 ''OFFERING-JAVA'' ''JAMES'' ''15062030'' (Some 1) (Some 2),
         RegisterForCourse ''2030-01-01T08:00:00.000Z'' ''OFFERING-OFFERING-JAVA-JAMES''
           ''Bob'' ''bob@gmail.com''])
     ''OFFERING-JAVA-JAMES'' ''Bob-Offering'' ''bob.o@gmail.com'')
     = Inr (''BOB-OFFERING-OFFERING-JAVA-JAMES'', ACCEPTED) \<and>
   snd (cancelRegistration
     (serve localeCompare []
        [addJava 1 2,
         AddCourseOffering 22000 ''OFFERING-JAVA'' ''JAMES'' ''15062030'' (Some 1) (Some 2),
         RegisterForCourse ''2030-01-01T08:00:00.000Z'' ''OFFERING-OFFERING-JAVA-JAMES''
           ''Bob'' ''bob@gmail.com'',
         registerJava ''Bob-Offering'' ''bob.o@gmail.com''])
     ''BOB-OFFERING-OFFERING-JAVA-JAMES'')
     = Inr (''BOB-OFFERING-OFFERING-JAVA-JAMES'', ''OFFERING-OFFERING-JAVA-JAMES'',
            CANCEL_ACCEPTED) \<and>
   map_option current_count
     (getCourse (serve localeCompare []
        [addJava 1 2,
         AddCourseOffering 22000 ''OFFERING-JAVA'' ''JAMES'' ''15062030'' (Some 1) (Some 2),
         RegisterForCourse ''2030-01-01T08:00:00.000Z'' ''OFFERING-OFFERING-JAVA-JAMES''
           ''Bob'' ''bob@gmail.com'',
         registerJava ''Bob-Offering'' ''bob.o@gmail.com'',
         CancelRegistration ''BOB-OFFERING-OFFERING-JAVA-JAMES'']) ''OFFERING-JAVA-JAMES'')
     = Some 1 \<and>
   getItem (serve localeCompare []
        [addJava 1 2,
         AddCourseOffering 22000 ''OFFERING-JAVA'' ''JAMES'' ''15062030'' (Some 1) (Some 2),
         RegisterForCourse ''2030-01-01T08:00:00.000Z'' ''OFFERING-OFFERING-JAVA-JAMES''
           ''Bob'' ''bob@gmail.com'',
         registerJava ''Bob-Offering'' ''bob.o@gmail.com'',
         CancelRegistration ''BOB-OFFERING-OFFERING-JAVA-JAMES''])
     (coursePK ''OFFERING-JAVA-JAMES'', regSK ''BOB-OFFERING-OFFERING-JAVA-JAMES'')
     = Some (Registration \<lparr>registration_id = ''BOB-OFFERING-OFFERING-JAVA-JAMES'',
          employee_name = ''Bob-Offering'', email = ''bob.o@gmail.com'',
          reg_course_id = ''OFFERING-JAVA-JAMES'', status = ACCEPTED,
          created_at = ''2030-01-01T08:00:00.000Z''\<rparr>) \<and>
   getItem (serve localeCompare [] [addJava 1 5, registerJava ''Andy'' ''andy@gmail.com''])
     (coursePK ''OFFERING-JAVA-JAMES'', regSK ''ANDY-OFFERING-JAVA-JAMES'')
     = Some (Registration \<lparr>registration_id = ''ANDY-OFFERING-JAVA-JAMES'',
          employee_name = ''Andy'', email = ''andy@gmail.com'',
          reg_course_id = ''OFFERING-JAVA-JAMES'', status = ACCEPTED,
          created_at = ''2030-01-01T08:00:00.000Z''\<rparr>) \<and>
   snd (registerForCourse ''2030-01-01T08:00:00.000Z''
     (serve localeCompare [] [addJava 1 5, registerJava ''Andy'' ''andy@gmail.com''])
     ''OFFERING-JAVA-JAMES'' ''Andy'' ''andy.b@gmail.com'')
     = Inr (''ANDY-OFFERING-JAVA-JAMES'', ACCEPTED) \<and>
   snd (cancelRegistration
     (serve localeCompare []
        [addJava 1 5, registerJava ''Andy'' ''andy@gmail.com'',
         registerJava ''Andy'' ''andy.b@gmail.com''])
     ''ANDY-OFFERING-JAVA-JAMES'')
     = Inr (''ANDY-OFFERING-JAVA-JAMES'', ''OFFERING-JAVA-JAMES'', CANCEL_ACCEPTED) \<and>
   getItem (serve localeCompare []
        [addJava 1 5, registerJava ''Andy'' ''andy@gmail.com'',
         registerJava ''Andy'' ''andy.b@gmail.com'',
         CancelRegistration ''ANDY-OFFERING-JAVA-JAMES''])
     (coursePK ''OFFERING-JAVA-JAMES'', regSK ''ANDY-OFFERING-JAVA-JAMES'') = None"
  by code_simp

section \<open>The duplicate guard\<close>

lemma lower_props:
  assumes "c \<in> set ''abcdefghijklmnopqrstuvwxyz''"
  shows "isLetter c" "\<not> isDigit c" "c \<noteq> CHR ''@''" "c \<noteq> CHR ''.''" "c \<noteq> CHR ''_''"
    "c \<noteq> CHR ''-''" "\<not> isWhiteSpace c"
  using assms by (auto simp: isLetter_def isDigit_def isWhiteSpace_def)

lemma upper_props:
  assumes "c \<in> set ''ABCDEFGHIJKLMNOPQRSTUVWXYZ''"
  shows "isLetter c" "\<not> isDigit c" "c \<noteq> CHR ''@''" "c \<noteq> CHR ''.''" "c \<noteq> CHR ''_''"
    "c \<noteq> CHR ''-''" "\<not> isWhiteSpace c"
  using assms by (auto simp: isLetter_def isDigit_def isWhiteSpace_def)

lemma upperChar_class [simp]:
  "isLetter (upperChar c) = isLetter c"
  "isDigit (upperChar c) = isDigit c"
  "(upperChar c = CHR ''@'') = (c = CHR ''@'')"
  "(upperChar c = CHR ''.'') = (c = CHR ''.'')"
  "(upperChar c = CHR ''_'') = (c = CHR ''_'')"
  "(upperChar c = CHR ''-'') = (c = CHR ''-'')"
  "isWhiteSpace (upperChar c) = isWhiteSpace c"
  using upperChar_cases [of c] lower_props [of c] upper_props [of "upperChar c"]
  by metis+

lemma takeWhile_upper:
  "takeWhile (\<lambda>c. c \<noteq> x) (map upperChar s) = map upperChar (takeWhile (\<lambda>c. upperChar c \<noteq> x) s)"
  by (induction s) auto

lemma dropWhile_upper:
  "dropWhile (\<lambda>c. c \<noteq> x) (map upperChar s) = map upperChar (dropWhile (\<lambda>c. upperChar c \<noteq> x) s)"
  by (induction s) auto

lemma dropWhile_ws_upper:
  "dropWhile isWhiteSpace (map upperChar s) = map upperChar (dropWhile isWhiteSpace s)"
  by (induction s) auto

lemma trim_upper: "trim (toUpperCase s) = toUpperCase (trim s)"
  by (simp add: trim_def toUpperCase_def dropWhile_ws_upper rev_map)

lemma class_ascii:
  "isLetter c \<Longrightarrow> (of_char c :: nat) < 128"
  "isDigit c \<Longrightarrow> (of_char c :: nat) < 128"
  "c \<in> set ''._-@'' \<Longrightarrow> (of_char c :: nat) < 128"
  by (auto simp: isLetter_def isDigit_def)

lemma isAscii_subset: "set a \<subseteq> set b \<Longrightarrow> isAscii b \<Longrightarrow> isAscii a"
  by (auto simp: isAscii_def)

text \<open>A string that the email expression matches consists of ASCII characters.\<close>

lemma emailRegex_ascii:
  assumes "emailRegex s"
  shows "isAscii s"
proof -
  let ?P = "\<lambda>c. c \<noteq> CHR ''@''" and ?Q = "\<lambda>c. c \<noteq> CHR ''.''"
  let ?localPart = "takeWhile ?P s" and ?afterLocal = "dropWhile ?P s"
  let ?rest = "drop 1 ?afterLocal"
  let ?tld = "rev (takeWhile ?Q (rev ?rest))"
  let ?beforeTld = "rev (dropWhile ?Q (rev ?rest))"
  let ?domain = "butlast ?beforeTld"
  from assms have al: "?afterLocal \<noteq> []"
    and lp: "\<forall>c \<in> set ?localPart. isLetter c \<or> isDigit c \<or> c \<in> set ''._-''"
    and bt: "?beforeTld \<noteq> []"
    and dm: "\<forall>c \<in> set ?domain. isLetter c \<or> isDigit c \<or> c \<in> set ''.-''"
    and tl: "\<forall>c \<in> set ?tld. isLetter c"
    by (simp_all add: emailRegex_def Let_def)
  have s: "s = ?localPart @ ?afterLocal" by simp
  have "hd ?afterLocal = CHR ''@''" using al hd_dropWhile [of ?P s] by blast
  with al have after: "?afterLocal = CHR ''@'' # ?rest"
    by (cases ?afterLocal) simp_all
  have "rev ?rest = takeWhile ?Q (rev ?rest) @ dropWhile ?Q (rev ?rest)" by simp
  then have "rev (rev ?rest) = rev (takeWhile ?Q (rev ?rest) @ dropWhile ?Q (rev ?rest))"
    by (rule arg_cong)
  then have rest: "?rest = ?beforeTld @ ?tld" by (simp only: rev_rev_ident rev_append)
  have d: "dropWhile ?Q (rev ?rest) \<noteq> []" using bt by simp
  have "last ?beforeTld = hd (dropWhile ?Q (rev ?rest))"
    using d by (simp add: last_rev)
  also have "\<dots> = CHR ''.''" using d hd_dropWhile [of ?Q "rev ?rest"] by blast
  finally have "?beforeTld = ?domain @ [CHR ''.'']"
    using bt append_butlast_last_id [of ?beforeTld] by simp
  with s after rest
  have parts: "s = ?localPart @ CHR ''@'' # (?domain @ [CHR ''.'']) @ ?tld"
    by (metis (no_types, lifting))
  have "(of_char c :: nat) < 128" if "c \<in> set s" for c
  proof -
    from that parts
    have "c \<in> set (?localPart @ CHR ''@'' # (?domain @ [CHR ''.'']) @ ?tld)" by simp
    then have "c \<in> set ?localPart \<or> c = CHR ''@'' \<or> c \<in> set ?domain \<or> c = CHR ''.'' \<or>
               c \<in> set ?tld"
      by (simp only: set_append set_simps Un_iff insert_iff empty_iff) blast
    with lp dm tl
    have "isLetter c \<or> isDigit c \<or> c \<in> set ''._-@''" by auto
    then show ?thesis using class_ascii [of c] by blast
  qed
  then show ?thesis by (simp add: isAscii_def)
qed

text \<open>
  On ASCII strings the email check does not depend on letter case: a case variant of a
  valid address is valid.
\<close>

lemma emailRegex_upper: "isAscii s \<Longrightarrow> emailRegex (toUpperCase s) = emailRegex s"
  unfolding emailRegex_def toUpperCase_def Let_def
  by (simp add: takeWhile_upper dropWhile_upper rev_map drop_map map_butlast [symmetric]
      del: One_nat_def)

lemma isValidEmail_upper:
  assumes "isAscii (trim s)"
  shows "isValidEmail (toUpperCase s) = isValidEmail s"
proof -
  have "(toUpperCase s = []) = (s = [])" by (simp add: toUpperCase_def)
  then show ?thesis
    using emailRegex_upper [OF assms] by (simp add: isValidEmail_def trim_upper)
qed

lemma isValidEmail_case_variant:
  assumes valid: "isValidEmail a"
    and ascii: "isAscii b"
    and same: "toUpperCase b = toUpperCase a"
  shows "isValidEmail b"
proof -
  from valid have "emailRegex (trim a)" by (auto simp: isValidEmail_def split: if_splits)
  then have "isAscii (trim a)" by (rule emailRegex_ascii)
  then have "isValidEmail (toUpperCase a) = isValidEmail a" by (rule isValidEmail_upper)
  with valid have "isValidEmail (toUpperCase b)" by (simp only: same)
  moreover have "isAscii (trim b)" using set_trim [of b] ascii by (rule isAscii_subset)
  then have "isValidEmail (toUpperCase b) = isValidEmail b" by (rule isValidEmail_upper)
  ultimately show ?thesis by (simp only:)
qed

lemma sanitizeInput_nonempty:
  "sanitizeInput s \<noteq> [] \<Longrightarrow> s \<noteq> [] \<and> \<not> isEmptyAfterTrim s"
  by (auto simp: isEmptyAfterTrim_def sanitizeInput_def)

lemma isValidEmail_nonempty: "isValidEmail s \<Longrightarrow> s \<noteq> []"
  by (auto simp: isValidEmail_def)

lemma isValidCourseIdFormat_nonempty: "isValidCourseIdFormat s \<Longrightarrow> s \<noteq> []"
  by (auto simp: isValidCourseIdFormat_def)

lemma register_duplicate:
  assumes first: "registerForCourse ts t cid n e = (t1, Inr (rid, st))"
    and ascii: "isAscii e2"
    and name: "\<not> isEmptyAfterTrim n2"
    and same: "toUpperCase (sanitizeInput e2) = toUpperCase (sanitizeInput e)"
  shows "registerForCourse ts2 t1 cid n2 e2 = (t1, Inl (400, ''Already registered''))"
proof -
  from registerForCourse_Inr [OF first]
  obtain c where c: "getCourse t cid = Some c" "\<not> is_allotted c"
      "course_status c \<noteq> Some COURSE_CANCELED"
    and t1: "t1 = transactWrite (registerWrites ts cid rid (sanitizeInput n) (sanitizeInput e)) t"
    and v: "isValidCourseIdFormat cid" "isValidEmail (sanitizeInput e)"
    by auto
  have "isAscii (sanitizeInput e2)"
    using set_sanitizeInput [of e2] ascii by (rule isAscii_subset)
  with v(2) have ve: "isValidEmail (sanitizeInput e2)"
    using same by (rule isValidEmail_case_variant)
  then have e2: "e2 \<noteq> []" "\<not> isEmptyAfterTrim e2"
    using isValidEmail_nonempty sanitizeInput_nonempty by blast+
  have n2: "n2 \<noteq> []" using name by (auto simp: isEmptyAfterTrim_def sanitizeInput_def)
  have cid: "cid \<noteq> []" using v(1) by (rule isValidCourseIdFormat_nonempty)
  have c1: "getCourse t1 cid = Some (c\<lparr>current_count := current_count c + 1\<rparr>)"
    using t1 c(1) by (simp add: registerWrites_getCourse)
  have ex: "getItem t1 (employeePK (toUpperCase (sanitizeInput e2)), courseSK cid) \<noteq> None"
    using t1 same by (simp add: registerWrites_getItem)
  show ?thesis
    using e2 n2 cid name ve v(1) c1 c(2,3) ex
    by (simp add: registerForCourse_def Let_def)
qed

lemma register_same_name:
  assumes first: "registerForCourse ts t cid n e = (t1, Inr (rid, st))"
    and c: "getCourse t cid = Some c"
    and room: "current_count c + 1 < max_employees c"
    and name: "toUpperCase (sanitizeInput n3) = toUpperCase (sanitizeInput n)"
    and valid: "isValidEmail (sanitizeInput e3)"
    and other: "toUpperCase (sanitizeInput e3) \<noteq> toUpperCase (sanitizeInput e)"
    and new: "getItem t (employeePK (toUpperCase (sanitizeInput e3)), courseSK cid) = None"
  shows "\<exists>t2. registerForCourse ts3 t1 cid n3 e3 = (t2, Inr (rid, ACCEPTED)) \<and>
           getItem t2 (coursePK cid, regSK rid)
             = Some (Registration \<lparr>registration_id = rid, employee_name = sanitizeInput n3,
                       email = sanitizeInput e3, reg_course_id = cid, status = ACCEPTED,
                       created_at = ts3\<rparr>) \<and>
           registrationCount t2 cid = registrationCount t1 cid \<and>
           getCourse t2 cid = Some (c\<lparr>current_count := current_count c + 2\<rparr>) \<and>
           getItem t2 (employeePK (toUpperCase (sanitizeInput e)), courseSK cid) \<noteq> None \<and>
           getItem t2 (employeePK (toUpperCase (sanitizeInput e3)), courseSK cid) \<noteq> None"
proof -
  let ?n = "sanitizeInput n" and ?e = "sanitizeInput e"
  let ?n3 = "sanitizeInput n3" and ?e3 = "sanitizeInput e3"
  from registerForCourse_Inr [OF first] c
  have c': "\<not> is_allotted c" "course_status c \<noteq> Some COURSE_CANCELED"
    and rid: "rid = generateRegistrationId ?n cid"
    and t1: "t1 = transactWrite (registerWrites ts cid rid ?n ?e) t"
    and v: "isValidCourseIdFormat cid" "\<not> isEmptyAfterTrim n"
    by auto
  have e3: "e3 \<noteq> []" "\<not> isEmptyAfterTrim e3"
    using valid isValidEmail_nonempty sanitizeInput_nonempty by blast+
  have "?n \<noteq> []" using v(2) by (simp add: isEmptyAfterTrim_def)
  then have "toUpperCase ?n3 \<noteq> []" using name by (simp add: toUpperCase_def)
  then have "?n3 \<noteq> []" by (auto simp: toUpperCase_def)
  then have n3: "n3 \<noteq> []" "\<not> isEmptyAfterTrim n3"
    using sanitizeInput_nonempty by blast+
  have cid: "cid \<noteq> []" using v(1) by (rule isValidCourseIdFormat_nonempty)
  have rid3: "generateRegistrationId ?n3 cid = rid"
    using rid name by (simp add: generateRegistrationId_def)
  have c1: "getCourse t1 cid = Some (c\<lparr>current_count := current_count c + 1\<rparr>)"
    using t1 c by (simp add: registerWrites_getCourse)
  have free: "getItem t1 (employeePK (toUpperCase ?e3), courseSK cid) = None"
    using t1 new other by (simp add: registerWrites_getItem)
  have stored: "getItem t1 (coursePK cid, regSK rid) \<noteq> None"
    using t1 by (simp add: registerWrites_getItem)
  let ?t2 = "transactWrite (registerWrites ts3 cid rid ?n3 ?e3) t1"
  have run: "registerForCourse ts3 t1 cid n3 e3 = (?t2, Inr (rid, ACCEPTED))"
    using e3 n3 cid valid v(1) c1 c' free room rid3
    by (simp add: registerForCourse_def Let_def)
  have row: "getItem ?t2 (coursePK cid, regSK rid)
             = Some (Registration \<lparr>registration_id = rid, employee_name = ?n3,
                       email = ?e3, reg_course_id = cid, status = ACCEPTED,
                       created_at = ts3\<rparr>)"
    by (simp add: registerWrites_getItem)
  have cnt: "registrationCount ?t2 cid = registrationCount t1 cid"
    using stored by (simp add: registerWrites_count)
  have crs: "getCourse ?t2 cid = Some (c\<lparr>current_count := current_count c + 2\<rparr>)"
    using c1 by (simp add: registerWrites_getCourse)
  have emp1: "getItem ?t2 (employeePK (toUpperCase ?e), courseSK cid) \<noteq> None"
    using t1 other by (simp add: registerWrites_getItem)
  have emp3: "getItem ?t2 (employeePK (toUpperCase ?e3), courseSK cid) \<noteq> None"
    by (simp add: registerWrites_getItem)
  show ?thesis
    using run row cnt crs emp1 emp3 by blast
qed

lemma register_full:
  assumes first: "registerForCourse ts t cid n e = (t1, Inr (rid, st))"
    and c: "getCourse t cid = Some c"
    and full: "max_employees c \<le> current_count c + 1"
    and name: "toUpperCase (sanitizeInput n3) = toUpperCase (sanitizeInput n)"
    and valid: "isValidEmail (sanitizeInput e3)"
    and other: "toUpperCase (sanitizeInput e3) \<noteq> toUpperCase (sanitizeInput e)"
    and new: "getItem t (employeePK (toUpperCase (sanitizeInput e3)), courseSK cid) = None"
  shows "registerForCourse ts3 t1 cid n3 e3 = (t1, Inl (400, ''COURSE_FULL_ERROR''))"
proof -
  let ?n = "sanitizeInput n" and ?e = "sanitizeInput e"
  let ?n3 = "sanitizeInput n3" and ?e3 = "sanitizeInput e3"
  from registerForCourse_Inr [OF first] c
  have c': "\<not> is_allotted c" "course_status c \<noteq> Some COURSE_CANCELED"
    and t1: "t1 = transactWrite (registerWrites ts cid rid ?n ?e) t"
    and v: "isValidCourseIdFormat cid" "\<not> isEmptyAfterTrim n"
    by auto
  have e3: "e3 \<noteq> []" "\<not> isEmptyAfterTrim e3"
    using valid isValidEmail_nonempty sanitizeInput_nonempty by blast+
  have "?n \<noteq> []" using v(2) by (simp add: isEmptyAfterTrim_def)
  then have "toUpperCase ?n3 \<noteq> []" using name by (simp add: toUpperCase_def)
  then have "?n3 \<noteq> []" by (auto simp: toUpperCase_def)
  then have n3: "n3 \<noteq> []" "\<not> isEmptyAfterTrim n3"
    using sanitizeInput_nonempty by blast+
  have cid: "cid \<noteq> []" using v(1) by (rule isValidCourseIdFormat_nonempty)
  have c1: "getCourse t1 cid = Some (c\<lparr>current_count := current_count c + 1\<rparr>)"
    using t1 c by (simp add: registerWrites_getCourse)
  have free: "getItem t1 (employeePK (toUpperCase ?e3), courseSK cid) = None"
    using t1 new other by (simp add: registerWrites_getItem)
  show ?thesis
    using e3 n3 cid valid v(1) c1 c' free full
    by (simp add: registerForCourse_def Let_def)
qed

text \<open>
  Claim C10, as the code has it. After a successful registration for a course, a further
  registration whose email address is ASCII and differs from the first at most in letter
  case (and whose employee name is not blank) fails with \<open>Already registered\<close> (status
  400) and changes nothing, whatever the employee name. A further registration under the
  same upper-cased employee name (both names ASCII) with another valid email address, not
  yet registered for the course, passes the duplicate check. When the course has room for
  one more it is accepted: it receives the same registration id, and its by-course row
  replaces the first one's, so the number of registration rows stays while the counter
  goes up by one again. When the first registration took the last seat it is refused with
  \<open>COURSE_FULL_ERROR\<close> (status 400) and changes nothing.
\<close>

theorem C10_duplicate_guard:
  assumes "registerForCourse ts t cid n e = (t1, Inr (rid, st))"
    and "getCourse t cid = Some c"
  shows "(isAscii e2 \<and> \<not> isEmptyAfterTrim n2 \<and>
          toUpperCase (sanitizeInput e2) = toUpperCase (sanitizeInput e) \<longrightarrow>
            registerForCourse ts2 t1 cid n2 e2 = (t1, Inl (400, ''Already registered''))) \<and>
         (isAscii n \<and> isAscii n3 \<and>
          toUpperCase (sanitizeInput n3) = toUpperCase (sanitizeInput n) \<and>
          isValidEmail (sanitizeInput e3) \<and>
          toUpperCase (sanitizeInput e3) \<noteq> toUpperCase (sanitizeInput e) \<and>
          getItem t (employeePK (toUpperCase (sanitizeInput e3)), courseSK cid) = None \<longrightarrow>
            (current_count c + 1 < max_employees c \<longrightarrow>
               (\<exists>t2. registerForCourse ts3 t1 cid n3 e3 = (t2, Inr (rid, ACCEPTED)) \<and>
                  getItem t2 (coursePK cid, regSK rid)
                    = Some (Registration \<lparr>registration_id = rid,
                              employee_name = sanitizeInput n3, email = sanitizeInput e3,
                              reg_course_id = cid, status = ACCEPTED, created_at = ts3\<rparr>) \<and>
                  registrationCount t2 cid = registrationCount t1 cid \<and>
                  getCourse t2 cid = Some (c\<lparr>current_count := current_count c + 2\<rparr>) \<and>
                  getItem t2 (employeePK (toUpperCase (sanitizeInput e)), courseSK cid) \<noteq> None \<and>
                  getItem t2 (employeePK (toUpperCase (sanitizeInput e3)), courseSK cid)
                    \<noteq> None)) \<and>
            (max_employees c \<le> current_count c + 1 \<longrightarrow>
               registerForCourse ts3 t1 cid n3 e3 = (t1, Inl (400, ''COURSE_FULL_ERROR''))))"
  using register_duplicate [OF assms(1)] register_same_name [OF assms(1) assms(2)]
    register_full [OF assms(1) assms(2)]
  by blast

theorem C10_duplicate_guard_witness:
  "registerForCourse ''2030-01-01T08:00:00.000Z'' (serve localeCompare [] [addJava 1 5])
     ''OFFERING-JAVA-JAMES'' ''Andy'' ''andy@gmail.com''
     = (serve localeCompare [] [addJava 1 5, registerJava ''Andy'' ''andy@gmail.com''],
        Inr (''ANDY-OFFERING-JAVA-JAMES'', ACCEPTED)) \<and>
   isAscii ''ANDY@Gmail.com'' \<and> isAscii ''Andy'' \<and> isAscii ''andy'' \<and>
   registerForCourse ''2030-01-02T08:00:00.000Z''
     (serve localeCompare [] [addJava 1 5, registerJava ''Andy'' ''andy@gmail.com''])
     ''OFFERING-JAVA-JAMES'' ''Bob'' ''ANDY@Gmail.com''
     = (serve localeCompare [] [addJava 1 5, registerJava ''Andy'' ''andy@gmail.com''],
        Inl (400, ''Already registered'')) \<and>
   (\<exists>t2. registerForCourse ''2030-01-03T08:00:00.000Z''
            (serve localeCompare [] [addJava 1 5, registerJava ''Andy'' ''andy@gmail.com''])
            ''OFFERING-JAVA-JAMES'' ''andy'' ''andy.b@gmail.com''
            = (t2, Inr (''ANDY-OFFERING-JAVA-JAMES'', ACCEPTED)) \<and>
          getItem t2 (coursePK ''OFFERING-JAVA-JAMES'', regSK ''ANDY-OFFERING-JAVA-JAMES'')
            = Some (Registration \<lparr>registration_id = ''ANDY-OFFERING-JAVA-JAMES'',
                      employee_name = sanitizeInput ''andy'',
                      email = sanitizeInput ''andy.b@gmail.com'',
                      reg_course_id = ''OFFERING-JAVA-JAMES'', status = ACCEPTED,
                      created_at = ''2030-01-03T08:00:00.000Z''\<rparr>) \<and>
          registrationCount t2 ''OFFERING-JAVA-JAMES''
            = registrationCount
                (serve localeCompare [] [addJava 1 5, registerJava ''Andy'' ''andy@gmail.com''])
                ''OFFERING-JAVA-JAMES'') \<and>
   registerForCourse ''2030-01-01T08:00:00.000Z'' (serve localeCompare [] [addJava 1 1])
     ''OFFERING-JAVA-JAMES'' ''Andy'' ''andy@gmail.com''
     = (serve localeCompare [] [addJava 1 1, registerJava ''Andy'' ''andy@gmail.com''],
        Inr (''ANDY-OFFERING-JAVA-JAMES'', ACCEPTED)) \<and>
   registerForCourse ''2030-01-03T08:00:00.000Z''
     (serve localeCompare [] [addJava 1 1, registerJava ''Andy'' ''andy@gmail.com''])
     ''OFFERING-JAVA-JAMES'' ''andy'' ''andy.b@gmail.com''
     = (serve localeCompare [] [addJava 1 1, registerJava ''Andy'' ''andy@gmail.com''],
        Inl (400, ''COURSE_FULL_ERROR''))"
proof -
  let ?c = "\<lparr>course_id = ''OFFERING-JAVA-JAMES'', course_name = ''JAVA'',
          instructor_name = ''JAMES'', start_date = ''15062030'', min_employees = 1,
          max_employees = 5, current_count = 0, is_allotted = False,
          course_status = None\<rparr>"
  let ?d = "\<lparr>course_id = ''OFFERING-JAVA-JAMES'', course_name = ''JAVA'',
          instructor_name = ''JAMES'', start_date = ''15062030'', min_employees = 1,
          max_employees = 1, current_count = 0, is_allotted = False,
          course_status = None\<rparr>"
  have first: "registerForCourse ''2030-01-01T08:00:00.000Z'' (serve localeCompare [] [addJava 1 5])
     ''OFFERING-JAVA-JAMES'' ''Andy'' ''andy@gmail.com''
     = (serve localeCompare [] [addJava 1 5, registerJava ''Andy'' ''andy@gmail.com''],
        Inr (''ANDY-OFFERING-JAVA-JAMES'', ACCEPTED))"
    by code_simp
  have c: "getCourse (serve localeCompare [] [addJava 1 5]) ''OFFERING-JAVA-JAMES'' = Some ?c"
    by code_simp
  have first': "registerForCourse ''2030-01-01T08:00:00.000Z'' (serve localeCompare [] [addJava 1 1])
     ''OFFERING-JAVA-JAMES'' ''Andy'' ''andy@gmail.com''
     = (serve localeCompare [] [addJava 1 1, registerJava ''Andy'' ''andy@gmail.com''],
        Inr (''ANDY-OFFERING-JAVA-JAMES'', ACCEPTED))"
    by code_simp
  have d: "getCourse (serve localeCompare [] [addJava 1 1]) ''OFFERING-JAVA-JAMES'' = Some ?d"
    by code_simp
  have a0: "isAscii ''ANDY@Gmail.com''" by code_simp
  have a1: "\<not> isEmptyAfterTrim ''Bob''" by code_simp
  have a2: "toUpperCase (sanitizeInput ''ANDY@Gmail.com'')
              = toUpperCase (sanitizeInput ''andy@gmail.com'')" by code_simp
  have b0: "isAscii ''Andy''" "isAscii ''andy''" by code_simp+
  have b1: "toUpperCase (sanitizeInput ''andy'') = toUpperCase (sanitizeInput ''Andy'')"
    by code_simp
  have b2: "isValidEmail (sanitizeInput ''andy.b@gmail.com'')" by code_simp
  have b3: "toUpperCase (sanitizeInput ''andy.b@gmail.com'')
              \<noteq> toUpperCase (sanitizeInput ''andy@gmail.com'')" by code_simp
  have b4: "getItem (serve localeCompare [] [addJava 1 5])
              (employeePK (toUpperCase (sanitizeInput ''andy.b@gmail.com'')),
               courseSK ''OFFERING-JAVA-JAMES'') = None" by code_simp
  have b4': "getItem (serve localeCompare [] [addJava 1 1])
              (employeePK (toUpperCase (sanitizeInput ''andy.b@gmail.com'')),
               courseSK ''OFFERING-JAVA-JAMES'') = None" by code_simp
  have b5: "current_count ?c + 1 < max_employees ?c" by simp
  have b5': "max_employees ?d \<le> current_count ?d + 1" by simp
  show ?thesis
    using first first' a0 a1 a2 b0 b1 b2 b3 b4 b4' b5 b5'
      C10_duplicate_guard [OF first c,
        where ?n2.0 = "''Bob''" and ?e2.0 = "''ANDY@Gmail.com''"
          and ?ts2.0 = "''2030-01-02T08:00:00.000Z''"
          and ?n3.0 = "''andy''" and ?e3.0 = "''andy.b@gmail.com''"
          and ?ts3.0 = "''2030-01-03T08:00:00.000Z''"]
      C10_duplicate_guard [OF first' d,
        where ?n3.0 = "''andy''" and ?e3.0 = "''andy.b@gmail.com''"
          and ?ts3.0 = "''2030-01-03T08:00:00.000Z''"]
    by blast
qed

text \<open>
  Claim C10 as stated fails for a course that the first registration fills: with
  \<open>max_employees = 1\<close> the second Andy passes the duplicate check and is then refused
  as \<open>COURSE_FULL_ERROR\<close>; nothing is committed and the first row stays.
\<close>

theorem C10_duplicate_guard_counterexample:
  "snd (registerForCourse ''2030-01-01T08:00:00.000Z'' (serve localeCompare [] [addJava 1 1])
          ''OFFERING-JAVA-JAMES'' ''Andy'' ''andy@gmail.com'')
     = Inr (''ANDY-OFFERING-JAVA-JAMES'', ACCEPTED) \<and>
   registerForCourse ''2030-01-03T08:00:00.000Z''
     (serve localeCompare [] [addJava 1 1, registerJava ''Andy'' ''andy@gmail.com''])
     ''OFFERING-JAVA-JAMES'' ''Andy'' ''andy.b@gmail.com''
     = (serve localeCompare [] [addJava 1 1, registerJava ''Andy'' ''andy@gmail.com''],
        Inl (400, ''COURSE_FULL_ERROR''))"
  by code_simp

section \<open>Cancellation after allotment\<close>

text \<open>
  A registration id that \<open>registerForCourse\<close> derives from an employee name without a
  hyphen and a valid course id without surrounding white space passes the format check of
  \<open>cancelRegistration\<close>, and the course id comes back from it.
\<close>

lemma last_dropWhile: "dropWhile P xs \<noteq> [] \<Longrightarrow> last (dropWhile P xs) = last xs"
  by (induction xs) (auto split: if_splits)

lemma hd_trim:
  assumes "trim s \<noteq> []"
  shows "\<not> isWhiteSpace (hd (trim s))"
proof -
  let ?d = "dropWhile isWhiteSpace s"
  from assms have r: "dropWhile isWhiteSpace (rev ?d) \<noteq> []" by (simp add: trim_def)
  have d: "?d \<noteq> []"
  proof
    assume "?d = []"
    with r show False by simp
  qed
  have "hd (trim s) = last (dropWhile isWhiteSpace (rev ?d))"
    using r by (simp add: trim_def hd_rev)
  also have "\<dots> = last (rev ?d)" using r by (rule last_dropWhile)
  also have "\<dots> = hd ?d" using d by (simp add: last_rev)
  finally show ?thesis using d hd_dropWhile [of isWhiteSpace s] by simp
qed

lemma last_trim:
  assumes "trim s \<noteq> []"
  shows "\<not> isWhiteSpace (last (trim s))"
proof -
  let ?d = "dropWhile isWhiteSpace s"
  from assms have r: "dropWhile isWhiteSpace (rev ?d) \<noteq> []" by (simp add: trim_def)
  have "last (trim s) = hd (dropWhile isWhiteSpace (rev ?d))"
    using r by (simp add: trim_def last_rev)
  then show ?thesis using r hd_dropWhile [of isWhiteSpace "rev ?d"] by simp
qed

lemma trim_id:
  assumes "s \<noteq> []" and "\<not> isWhiteSpace (hd s)" and "\<not> isWhiteSpace (last s)"
  shows "trim s = s"
proof -
  have "dropWhile isWhiteSpace s = s" using assms(1,2) by (cases s) simp_all
  moreover have "dropWhile isWhiteSpace (rev s) = rev s"
    using assms(1,3) by (cases "rev s") (simp_all add: hd_rev [symmetric])
  ultimately show ?thesis by (simp add: trim_def)
qed

lemma split_OFFERING:
  assumes "startsWith s ''OFFERING-''"
  shows "\<exists>ps. split CHR ''-'' s = ''OFFERING'' # ps"
proof -
  from assms obtain r where "s = ''OFFERING-'' @ r" by (auto simp: startsWith_iff)
  then have "s = ''OFFERING'' @ CHR ''-'' # r" by simp
  moreover have "CHR ''-'' \<notin> set ''OFFERING''" by simp
  ultimately show ?thesis using split_prefix [of "CHR ''-''" "''OFFERING''" r] by simp
qed

lemma generated_id_valid:
  assumes cid: "isValidCourseIdFormat cid" and trimmed: "trim cid = cid"
    and name: "trim n \<noteq> []" and plain: "CHR ''-'' \<notin> set n"
  shows "isValidRegistrationIdFormat (generateRegistrationId (trim n) cid)"
proof -
  let ?N = "toUpperCase (trim n)"
  let ?rid = "?N @ CHR ''-'' # cid"
  have rid: "generateRegistrationId (trim n) cid = ?rid"
    by (simp add: generateRegistrationId_def)
  from cid have ne: "cid \<noteq> []" by (rule isValidCourseIdFormat_nonempty)
  from cid trimmed ne have st: "startsWith cid ''OFFERING-''"
    and len: "3 \<le> length (split CHR ''-'' cid)"
    and parts: "\<forall>part \<in> set (split CHR ''-'' cid). part \<noteq> []"
    by (auto simp: isValidCourseIdFormat_def Let_def split: if_splits)
  from split_OFFERING [OF st] obtain ps where ps: "split CHR ''-'' cid = ''OFFERING'' # ps"
    by blast
  have N: "?N \<noteq> []" using name by (simp add: toUpperCase_def)
  have "CHR ''-'' \<notin> set (trim n)" using plain set_trim [of n] by blast
  then have hy: "CHR ''-'' \<notin> set ?N" by (simp add: toUpperCase_hyphen)
  have sp: "split CHR ''-'' ?rid = ?N # ''OFFERING'' # ps"
    using hy ps by (simp add: split_prefix)
  have "hd ?rid = upperChar (hd (trim n))"
    using name by (cases "trim n") (simp_all add: toUpperCase_def)
  then have h: "\<not> isWhiteSpace (hd ?rid)" using hd_trim [OF name] by simp
  have "trim cid \<noteq> []" using trimmed ne by simp
  then have "\<not> isWhiteSpace (last (trim cid))" by (rule last_trim)
  then have l: "\<not> isWhiteSpace (last ?rid)" using trimmed ne by simp
  have t: "trim ?rid = ?rid" using h l by (intro trim_id) simp_all
  have all: "\<forall>part \<in> set (?N # ''OFFERING'' # ps). part \<noteq> []"
    using N parts ps by simp
  have "4 \<le> length (?N # ''OFFERING'' # ps)" using len ps by simp
  with all sp t show ?thesis
    unfolding rid by (simp add: isValidRegistrationIdFormat_def Let_def)
qed

lemma register_id_valid:
  assumes reg: "registerForCourse ts t cid n e = (t1, Inr (rid, st))"
    and plain: "CHR ''-'' \<notin> set n"
    and trimmed: "trim cid = cid"
  shows "isValidRegistrationIdFormat rid"
proof -
  from registerForCourse_Inr [OF reg]
  have rid: "rid = generateRegistrationId (sanitizeInput n) cid"
    and cid: "isValidCourseIdFormat cid" and n: "\<not> isEmptyAfterTrim n"
    by auto
  from n have "n \<noteq> []" by (auto simp: isEmptyAfterTrim_def sanitizeInput_def)
  then have s: "sanitizeInput n = trim n" by (simp add: sanitizeInput_def)
  with n have "trim n \<noteq> []" by (simp add: isEmptyAfterTrim_def)
  from generated_id_valid [OF cid trimmed this plain] rid s show ?thesis by simp
qed

lemma cancel_invalid:
  "\<not> isValidRegistrationIdFormat rid \<Longrightarrow>
   cancelRegistration t rid = (t, Inl (400, ''INPUT_DATA_ERROR''))"
  by (simp add: cancelRegistration_def)

lemma cancel_allotted:
  assumes "isValidRegistrationIdFormat rid"
    and "getItem t (coursePK (extractCourseIdFromRegistration rid), regSK rid) = Some it"
    and "allotted t (extractCourseIdFromRegistration rid)"
  shows "cancelRegistration t rid
           = (t, Inr (rid, extractCourseIdFromRegistration rid, CANCEL_REJECTED))"
proof -
  have "rid \<noteq> []" using assms(1) by (auto simp: isValidRegistrationIdFormat_def)
  with assms show ?thesis
    by (auto simp: cancelRegistration_def Let_def allotted_def split: option.splits)
qed

text \<open>
  Claim C7, as the code has it. \<open>cancelRegistration\<close> first checks the format of the
  registration id and then takes the course from the id, cutting at its first hyphen.
  An id that fails the format check is answered with \<open>INPUT_DATA_ERROR\<close> (status 400)
  and the table is returned as it was. For an id that passes, whose by-course row is
  stored under the course taken from the id, and that course being allotted, the answer
  is \<open>CANCEL_REJECTED\<close> with status 200 and the table is returned as it was. The course
  taken from the id is the course registered for when the registration was made under an
  employee name without a hyphen (ASCII, like the course id, which has no surrounding
  white space): then the id passes the check, and once the course is allotted the
  cancellation of the stored registration is rejected and nothing changes.
\<close>

theorem C7_cancel_after_allot:
  "(\<not> isValidRegistrationIdFormat rid \<longrightarrow>
      cancelRegistration t rid = (t, Inl (400, ''INPUT_DATA_ERROR''))) \<and>
   (isValidRegistrationIdFormat rid \<and>
    getItem t (coursePK (extractCourseIdFromRegistration rid), regSK rid) = Some it \<and>
    allotted t (extractCourseIdFromRegistration rid) \<longrightarrow>
      cancelRegistration t rid
        = (t, Inr (rid, extractCourseIdFromRegistration rid, CANCEL_REJECTED))) \<and>
   (registerForCourse ts t0 cid employeeName emailAddr = (t1, Inr (rid, st)) \<and>
    isAscii employeeName \<and> CHR ''-'' \<notin> set employeeName \<and> trim cid = cid \<and>
    getItem t (coursePK cid, regSK rid) = Some it \<and> allotted t cid \<longrightarrow>
      isValidRegistrationIdFormat rid \<and> extractCourseIdFromRegistration rid = cid \<and>
      cancelRegistration t rid = (t, Inr (rid, cid, CANCEL_REJECTED)))"
proof (intro conjI impI)
  assume "\<not> isValidRegistrationIdFormat rid"
  then show "cancelRegistration t rid = (t, Inl (400, ''INPUT_DATA_ERROR''))"
    by (rule cancel_invalid)
next
  assume "isValidRegistrationIdFormat rid \<and>
    getItem t (coursePK (extractCourseIdFromRegistration rid), regSK rid) = Some it \<and>
    allotted t (extractCourseIdFromRegistration rid)"
  then show "cancelRegistration t rid
        = (t, Inr (rid, extractCourseIdFromRegistration rid, CANCEL_REJECTED))"
    using cancel_allotted by blast
next
  assume h: "registerForCourse ts t0 cid employeeName emailAddr = (t1, Inr (rid, st)) \<and>
    isAscii employeeName \<and> CHR ''-'' \<notin> set employeeName \<and> trim cid = cid \<and>
    getItem t (coursePK cid, regSK rid) = Some it \<and> allotted t cid"
  then have reg: "registerForCourse ts t0 cid employeeName emailAddr = (t1, Inr (rid, st))"
    and plain: "CHR ''-'' \<notin> set employeeName" and trimmed: "trim cid = cid"
    and stored: "getItem t (coursePK cid, regSK rid) = Some it" and al: "allotted t cid"
    by simp_all
  show v: "isValidRegistrationIdFormat rid"
    using reg plain trimmed by (rule register_id_valid)
  show e: "extractCourseIdFromRegistration rid = cid"
    using reg plain by (rule register_id_course)
  show "cancelRegistration t rid = (t, Inr (rid, cid, CANCEL_REJECTED))"
    using cancel_allotted [of rid t it] v e stored al by simp
qed

theorem C7_cancel_after_allot_witness:
  "registerForCourse ''2030-01-01T08:00:00.000Z'' (serve localeCompare [] [addJava 1 2])
     ''OFFERING-JAVA-JAMES'' ''Andy'' ''andy@gmail.com''
     = (serve localeCompare [] [addJava 1 2, registerJava ''Andy'' ''andy@gmail.com''],
        Inr (''ANDY-OFFERING-JAVA-JAMES'', ACCEPTED)) \<and>
   isAscii ''Andy'' \<and> CHR ''-'' \<notin> set ''Andy'' \<and>
   trim ''OFFERING-JAVA-JAMES'' = ''OFFERING-JAVA-JAMES'' \<and>
   getItem (serve localeCompare []
       [addJava 1 2, registerJava ''Andy'' ''andy@gmail.com'', AllotCourse 22001 ''OFFERING-JAVA-JAMES''])
     (coursePK ''OFFERING-JAVA-JAMES'', regSK ''ANDY-OFFERING-JAVA-JAMES'')
     = Some (Registration \<lparr>registration_id = ''ANDY-OFFERING-JAVA-JAMES'',
          employee_name = ''Andy'', email = ''andy@gmail.com'',
          reg_course_id = ''OFFERING-JAVA-JAMES'', status = CONFIRMED,
          created_at = ''2030-01-01T08:00:00.000Z''\<rparr>) \<and>
   allotted (serve localeCompare []
       [addJava 1 2, registerJava ''Andy'' ''andy@gmail.com'', AllotCourse 22001 ''OFFERING-JAVA-JAMES''])
     ''OFFERING-JAVA-JAMES'' \<and>
   isValidRegistrationIdFormat ''ANDY-OFFERING-JAVA-JAMES'' \<and>
   extractCourseIdFromRegistration ''ANDY-OFFERING-JAVA-JAMES'' = ''OFFERING-JAVA-JAMES'' \<and>
   cancelRegistration (serve localeCompare []
       [addJava 1 2, registerJava ''Andy'' ''andy@gmail.com'', AllotCourse 22001 ''OFFERING-JAVA-JAMES''])
     ''ANDY-OFFERING-JAVA-JAMES''
     = (serve localeCompare []
         [addJava 1 2, registerJava ''Andy'' ''andy@gmail.com'', AllotCourse 22001 ''OFFERING-JAVA-JAMES''],
        Inr (''ANDY-OFFERING-JAVA-JAMES'', ''OFFERING-JAVA-JAMES'', CANCEL_REJECTED)) \<and>
   \<not> isValidRegistrationIdFormat ''ANDY-JAVA-JAMES'' \<and>
   cancelRegistration (serve localeCompare []
       [addJava 1 2, registerJava ''Andy'' ''andy@gmail.com'', AllotCourse 22001 ''OFFERING-JAVA-JAMES''])
     ''ANDY-JAVA-JAMES''
     = (serve localeCompare []
         [addJava 1 2, registerJava ''Andy'' ''andy@gmail.com'', AllotCourse 22001 ''OFFERING-JAVA-JAMES''],
        Inl (400, ''INPUT_DATA_ERROR''))"
proof -
  let ?t = "serve localeCompare []
       [addJava 1 2, registerJava ''Andy'' ''andy@gmail.com'', AllotCourse 22001 ''OFFERING-JAVA-JAMES'']"
  let ?r = "Registration \<lparr>registration_id = ''ANDY-OFFERING-JAVA-JAMES'',
          employee_name = ''Andy'', email = ''andy@gmail.com'',
          reg_course_id = ''OFFERING-JAVA-JAMES'', status = CONFIRMED,
          created_at = ''2030-01-01T08:00:00.000Z''\<rparr>"
  have reg: "registerForCourse ''2030-01-01T08:00:00.000Z'' (serve localeCompare [] [addJava 1 2])
     ''OFFERING-JAVA-JAMES'' ''Andy'' ''andy@gmail.com''
     = (serve localeCompare [] [addJava 1 2, registerJava ''Andy'' ''andy@gmail.com''],
        Inr (''ANDY-OFFERING-JAVA-JAMES'', ACCEPTED))"
    by code_simp
  have a: "isAscii ''Andy''" by code_simp
  have n: "CHR ''-'' \<notin> set ''Andy''" by simp
  have tr: "trim ''OFFERING-JAVA-JAMES'' = ''OFFERING-JAVA-JAMES''" by code_simp
  have r: "getItem ?t (coursePK ''OFFERING-JAVA-JAMES'', regSK ''ANDY-OFFERING-JAVA-JAMES'')
     = Some ?r" by code_simp
  have al: "allotted ?t ''OFFERING-JAVA-JAMES''" by code_simp
  have bad: "\<not> isValidRegistrationIdFormat ''ANDY-JAVA-JAMES''" by code_simp
  have third: "isValidRegistrationIdFormat ''ANDY-OFFERING-JAVA-JAMES'' \<and>
      extractCourseIdFromRegistration ''ANDY-OFFERING-JAVA-JAMES'' = ''OFFERING-JAVA-JAMES'' \<and>
      cancelRegistration ?t ''ANDY-OFFERING-JAVA-JAMES''
        = (?t, Inr (''ANDY-OFFERING-JAVA-JAMES'', ''OFFERING-JAVA-JAMES'', CANCEL_REJECTED))"
    using reg a n tr r al
      C7_cancel_after_allot [of "''ANDY-OFFERING-JAVA-JAMES''" ?t ?r
        "''2030-01-01T08:00:00.000Z''" "serve localeCompare [] [addJava 1 2]"
        "''OFFERING-JAVA-JAMES''" "''Andy''" "''andy@gmail.com''"
        "serve localeCompare [] [addJava 1 2, registerJava ''Andy'' ''andy@gmail.com'']"
        ACCEPTED]
    by blast
  have first: "cancelRegistration ?t ''ANDY-JAVA-JAMES'' = (?t, Inl (400, ''INPUT_DATA_ERROR''))"
    using bad C7_cancel_after_allot [of "''ANDY-JAVA-JAMES''" ?t] by blast
  show ?thesis
    using reg a n tr r al bad third first by blast
qed

text \<open>
  Claim C7 as stated fails at two inputs, both registrations whose employee name has a
  hyphen. Mary-Ann is registered for the course, the course is allotted, and the
  cancellation of her registration id is refused as \<open>INPUT_DATA_ERROR\<close> (status 400),
  since the second part of the id is not \<open>OFFERING\<close>. The employee Bob-Offering is
  registered for \<open>OFFERING-JAVA-JAMES\<close>, which is then allotted; his registration id
  passes the format check and names the course \<open>OFFERING-OFFERING-JAVA-JAMES\<close>, where
  Bob holds a registration with the same id: the cancellation is accepted and removes
  Bob's row there.
\<close>

theorem C7_cancel_after_allot_counterexample:
  "getItem (serve localeCompare []
       [addJava 1 2, registerJava ''Mary-Ann'' ''mary@gmail.com'', AllotCourse 22001 ''OFFERING-JAVA-JAMES''])
     (coursePK ''OFFERING-JAVA-JAMES'', regSK ''MARY-ANN-OFFERING-JAVA-JAMES'')
     = Some (Registration \<lparr>registration_id = ''MARY-ANN-OFFERING-JAVA-JAMES'',
          employee_name = ''Mary-Ann'', email = ''mary@gmail.com'',
          reg_course_id = ''OFFERING-JAVA-JAMES'', status = CONFIRMED,
          created_at = ''2030-01-01T08:00:00.000Z''\<rparr>) \<and>
   allotted (serve localeCompare []
       [addJava 1 2, registerJava ''Mary-Ann'' ''mary@gmail.com'', AllotCourse 22001 ''OFFERING-JAVA-JAMES''])
     ''OFFERING-JAVA-JAMES'' \<and>
   snd (cancelRegistration (serve localeCompare []
       [addJava 1 2, registerJava ''Mary-Ann'' ''mary@gmail.com'', AllotCourse 22001 ''OFFERING-JAVA-JAMES''])
     ''MARY-ANN-OFFERING-JAVA-JAMES'') = Inl (400, ''INPUT_DATA_ERROR'') \<and>
   getItem (serve localeCompare []
        [addJava 1 2,
         AddCourseOffering 22000 ''OFFERING-JAVA'' ''JAMES'' ''15062030'' (Some 1) (Some 2),
         RegisterForCourse ''2030-01-01T08:00:00.000Z'' ''OFFERING-OFFERING-JAVA-JAMES''
           ''Bob'' ''bob@gmail.com'',
         registerJava ''Bob-Offering'' ''bob.o@gmail.com'',
         AllotCourse 22001 ''OFFERING-JAVA-JAMES''])
     (coursePK ''OFFERING-JAVA-JAMES'', regSK ''BOB-OFFERING-OFFERING-JAVA-JAMES'')
     = Some (Registration \<lparr>registration_id = ''BOB-OFFERING-OFFERING-JAVA-JAMES'',
          employee_name = ''Bob-Offering'', email = ''bob.o@gmail.com'',
          reg_course_id = ''OFFERING-JAVA-JAMES'', status = CONFIRMED,
          created_at = ''2030-01-01T08:00:00.000Z''\<rparr>) \<and>
   allotted (serve localeCompare []
        [addJava 1 2,
         AddCourseOffering 22000 ''OFFERING-JAVA'' ''JAMES'' ''15062030'' (Some 1) (Some 2),
         RegisterForCourse ''2030-01-01T08:00:00.000Z'' ''OFFERING-OFFERING-JAVA-JAMES''
           ''Bob'' ''bob@gmail.com'',
         registerJava ''Bob-Offering'' ''bob.o@gmail.com'',
         AllotCourse 22001 ''OFFERING-JAVA-JAMES''])
     ''OFFERING-JAVA-JAMES'' \<and>
   isValidRegistrationIdFormat ''BOB-OFFERING-OFFERING-JAVA-JAMES'' \<and>
   snd (cancelRegistration (serve localeCompare []
        [addJava 1 2,
         AddCourseOffering 22000 ''OFFERING-JAVA'' ''JAMES'' ''15062030'' (Some 1) (Some 2),
         RegisterForCourse ''2030-01-01T08:00:00.000Z'' ''OFFERING-OFFERING-JAVA-JAMES''
           ''Bob'' ''bob@gmail.com'',
         registerJava ''Bob-Offering'' ''bob.o@gmail.com'',
         AllotCourse 22001 ''OFFERING-JAVA-JAMES''])
     ''BOB-OFFERING-OFFERING-JAVA-JAMES'')
     = Inr (''BOB-OFFERING-OFFERING-JAVA-JAMES'', ''OFFERING-OFFERING-JAVA-JAMES'',
            CANCEL_ACCEPTED) \<and>
   getItem (serve localeCompare []
        [addJava 1 2,
         AddCourseOffering 22000 ''OFFERING-JAVA'' ''JAMES'' ''15062030'' (Some 1) (Some 2),
         RegisterForCourse ''2030-01-01T08:00:00.000Z'' ''OFFERING-OFFERING-JAVA-JAMES''
           ''Bob'' ''bob@gmail.com'',
         registerJava ''Bob-Offering'' ''bob.o@gmail.com'',
         AllotCourse 22001 ''OFFERING-JAVA-JAMES''])
     (coursePK ''OFFERING-OFFERING-JAVA-JAMES'', regSK ''BOB-OFFERING-OFFERING-JAVA-JAMES'')
     \<noteq> None \<and>
   getItem (fst (cancelRegistration (serve localeCompare []
        [addJava 1 2,
         AddCourseOffering 22000 ''OFFERING-JAVA'' ''JAMES'' ''15062030'' (Some 1) (Some 2),
         RegisterForCourse ''2030-01-01T08:00:00.000Z'' ''OFFERING-OFFERING-JAVA-JAMES''
           ''Bob'' ''bob@gmail.com'',
         registerJava ''Bob-Offering'' ''bob.o@gmail.com'',
         AllotCourse 22001 ''OFFERING-JAVA-JAMES''])
     ''BOB-OFFERING-OFFERING-JAVA-JAMES''))
     (coursePK ''OFFERING-OFFERING-JAVA-JAMES'', regSK ''BOB-OFFERING-OFFERING-JAVA-JAMES'')
     = None"
  by code_simp

section \<open>Effects of allotment\<close>

lemma set_query:
  "set (query t pk pre) = snd ` {row \<in> set t. inPartition pk pre (fst row)}"
  by (auto simp: query_def inPartition_def)

lemma getItem_mem: "distinct (map fst t) \<Longrightarrow> (getItem t k = Some it) = ((k, it) \<in> set t)"
  by (simp add: getItem_def)

lemma wf_query_item:
  assumes "wf_table t" and "it \<in> set (query t (coursePK cid) ''REG#'')"
  shows "\<exists>r. it = Registration r \<and>
           getItem t (coursePK cid, regSK (registration_id r)) = Some (Registration r)"
proof -
  from assms(2) obtain pk sk where row: "((pk, sk), it) \<in> set t"
    and pk: "pk = coursePK cid" and sk: "startsWith sk ''REG#''"
    by (auto simp: set_query inPartition_def)
  from assms(1) row have keyed: "rowKeyed (pk, sk) it" and d: "distinct (map fst t)"
    by (auto simp: wf_table_def)
  show ?thesis
  proof (cases it)
    case (Course c)
    with keyed sk show ?thesis by simp
  next
    case (Registration r)
    with keyed pk have "sk = regSK (registration_id r)" by simp
    with row pk d Registration show ?thesis by (simp add: getItem_mem)
  next
    case (EmployeeCourse e)
    with keyed pk show ?thesis by simp
  qed
qed

lemma query_item:
  assumes "distinct (map fst t)" and "getItem t (coursePK cid, regSK rid) = Some it"
  shows "it \<in> set (query t (coursePK cid) ''REG#'')"
proof -
  from assms have "((coursePK cid, regSK rid), it) \<in> set t" by (simp add: getItem_mem)
  then show ?thesis by (force simp: set_query)
qed

lemma registrationsOf_map:
  "\<forall>it \<in> set its. \<exists>r. it = Registration r \<Longrightarrow> map Registration (registrationsOf its) = its"
  by (induction its rule: registrationsOf.induct) auto

lemma wf_registrations:
  assumes "wf_table t"
  shows "map Registration (registrationsOf (query t (coursePK cid) ''REG#''))
           = query t (coursePK cid) ''REG#''"
  using wf_query_item [OF assms] by (intro registrationsOf_map) blast

lemma wf_length_registrations:
  assumes "wf_table t"
  shows "length (registrationsOf (query t (coursePK cid) ''REG#'')) = registrationCount t cid"
proof -
  have "length (map Registration (registrationsOf (query t (coursePK cid) ''REG#'')))
          = length (query t (coursePK cid) ''REG#'')"
    by (simp only: wf_registrations [OF assms])
  then show ?thesis by (simp add: registrationCount_def)
qed

lemma wf_registration_ids:
  assumes "wf_table t"
  shows "(rid \<in> registration_id ` set (registrationsOf (query t (coursePK cid) ''REG#'')))
           = (getItem t (coursePK cid, regSK rid) \<noteq> None)"
proof
  assume "rid \<in> registration_id ` set (registrationsOf (query t (coursePK cid) ''REG#''))"
  then obtain r where r: "r \<in> set (registrationsOf (query t (coursePK cid) ''REG#''))"
    and rid: "rid = registration_id r" by blast
  from r have "Registration r \<in> set (map Registration (registrationsOf (query t (coursePK cid) ''REG#'')))"
    by simp
  then have "Registration r \<in> set (query t (coursePK cid) ''REG#'')"
    by (simp only: wf_registrations [OF assms])
  from wf_query_item [OF assms this] rid
  show "getItem t (coursePK cid, regSK rid) \<noteq> None" by auto
next
  assume "getItem t (coursePK cid, regSK rid) \<noteq> None"
  then obtain it where it: "getItem t (coursePK cid, regSK rid) = Some it" by blast
  from assms have d: "distinct (map fst t)" by (simp add: wf_table_def)
  from query_item [OF d it] have q: "it \<in> set (query t (coursePK cid) ''REG#'')" .
  from wf_query_item [OF assms q] obtain r where r: "it = Registration r"
    and g: "getItem t (coursePK cid, regSK (registration_id r)) = Some (Registration r)"
    by blast
  from it d have "((coursePK cid, regSK rid), it) \<in> set t" by (simp add: getItem_mem)
  with assms r have "regSK rid = regSK (registration_id r)"
    by (auto simp: wf_table_def)
  then have "rid = registration_id r" by simp
  moreover from q r have "Registration r \<in> set (map Registration (registrationsOf (query t (coursePK cid) ''REG#'')))"
    by (simp only: wf_registrations [OF assms])
  then have "r \<in> set (registrationsOf (query t (coursePK cid) ''REG#''))" by auto
  ultimately show "rid \<in> registration_id ` set (registrationsOf (query t (coursePK cid) ''REG#''))"
    by blast
qed

lemma setStatus_idem: "setStatus st (setStatus st it) = setStatus st it"
  by (cases it) (simp_all add: setStatus_def)

lemma setStatus_writes_getItem:
  "getItem (transactWrite (map (\<lambda>r. SetStatus (key r) st) regs) t) k =
     (if k \<in> key ` set regs then map_option (setStatus st) (getItem t k) else getItem t k)"
proof (induction regs arbitrary: t)
  case Nil
  show ?case by simp
next
  case (Cons r regs)
  show ?case
    by (cases "getItem t k")
       (auto simp: Cons getItem_applyWrite setStatus_idem)
qed

lemma setStatus_writes_keys:
  "map fst (transactWrite (map (\<lambda>r. SetStatus (key r) st) regs) t) = map fst t"
  by (induction regs arbitrary: t) (simp_all add: keys_applyWrite)

lemma allotWrites_keys: "map fst (transactWrite (allotWrites cid regs st) t) = map fst t"
  by (simp add: allotWrites_def transactWrite_append setStatus_writes_keys keys_applyWrite)

lemma allotWrites_getItem_reg:
  "regs \<noteq> [] \<Longrightarrow>
   getItem (transactWrite (allotWrites cid regs st) t) (coursePK cid, regSK rid) =
     (if rid \<in> registration_id ` set regs
      then map_option (setStatus st) (getItem t (coursePK cid, regSK rid))
      else getItem t (coursePK cid, regSK rid))"
  by (auto simp: allotWrites_def transactWrite_append getItem_applyWrite
      setStatus_writes_getItem)

lemma setStatus_writes_getCourse:
  "getCourse (transactWrite (map (\<lambda>r. SetStatus (key r) st) regs) t) cid = getCourse t cid"
  by (induction regs arbitrary: t) (simp_all add: getCourse_applyWrite)

lemma allotWrites_getCourse:
  "getCourse (transactWrite (allotWrites cid regs st) t) cid =
     map_option (\<lambda>c. c\<lparr>is_allotted := True,
        course_status := Some (if regs \<noteq> [] then st else COURSE_CANCELED)\<rparr>) (getCourse t cid)"
  by (simp add: allotWrites_def transactWrite_append getCourse_applyWrite
      setStatus_writes_getCourse)

section \<open>Allotment and the start date\<close>

text \<open>
  Claim C6, as the code has it. For an existing course with a well-formed id and an
  eight-character start date that denotes the day \<open>startDay\<close>, \<open>allotCourse\<close> fails with
  \<open>COURSE_ALLOT_DATE_ERROR\<close> (status 400) and returns the table unchanged when today is
  after the start day, whether the course is allotted or not: the date is checked first.
  On the start day itself and before it the date check passes: a course that is not yet
  allotted is allotted (the response is a success, and the course row then has
  \<open>is_allotted\<close> and a \<open>course_status\<close>), and an allotted course is refused with
  \<open>Course already allotted\<close> (status 400), the table unchanged.
\<close>

theorem C6_allot_date:
  assumes "isValidCourseIdFormat cid"
    and "getCourse t cid = Some c"
    and "length (start_date c) = 8"
    and "dateOfDDMMYYYY (start_date c) = Some startDay"
  shows "(startDay < today \<longrightarrow>
            allotCourse lc today t cid = (t, Inl (400, ''COURSE_ALLOT_DATE_ERROR''))) \<and>
         (today \<le> startDay \<and> \<not> is_allotted c \<longrightarrow>
            (\<exists>message registrations.
               snd (allotCourse lc today t cid) = Inr (message, registrations)) \<and>
            (\<exists>st. getCourse (fst (allotCourse lc today t cid)) cid
                    = Some (c\<lparr>is_allotted := True, course_status := Some st\<rparr>))) \<and>
         (today \<le> startDay \<and> is_allotted c \<longrightarrow>
            allotCourse lc today t cid = (t, Inl (400, ''Course already allotted'')))"
proof -
  have cid: "cid \<noteq> []" using assms(1) by (auto simp: isValidCourseIdFormat_def)
  have sd: "start_date c \<noteq> []" using assms(3) by auto
  have passed: "startDatePassed today (start_date c) = (startDay < today)"
    using sd assms(3,4) by (simp add: startDatePassed_def)
  have late: "allotCourse lc today t cid = (t, Inl (400, ''COURSE_ALLOT_DATE_ERROR''))"
    if "startDay < today"
    using that cid assms(1,2) passed by (simp add: allotCourse_def)
  have again: "allotCourse lc today t cid = (t, Inl (400, ''Course already allotted''))"
    if "today \<le> startDay" "is_allotted c"
    using that cid assms(1,2) passed by (simp add: allotCourse_def)
  have allot: "(\<exists>message registrations.
               snd (allotCourse lc today t cid) = Inr (message, registrations)) \<and>
            (\<exists>st. getCourse (fst (allotCourse lc today t cid)) cid
                    = Some (c\<lparr>is_allotted := True, course_status := Some st\<rparr>))"
    if "today \<le> startDay" "\<not> is_allotted c"
  proof -
    let ?regs = "registrationsOf (query t (coursePK cid) ''REG#'')"
    have run: "\<exists>message registrations. allotCourse lc today t cid
        = (transactWrite (allotWrites cid ?regs (finalStatusOf ?regs c)) t,
           Inr (message, registrations))"
      using that cid assms(1,2) passed by (simp add: allotCourse_def Let_def)
    then obtain message registrations where eq: "allotCourse lc today t cid
        = (transactWrite (allotWrites cid ?regs (finalStatusOf ?regs c)) t,
           Inr (message, registrations))" by blast
    have "getCourse (fst (allotCourse lc today t cid)) cid
            = Some (c\<lparr>is_allotted := True,
                 course_status := Some (if ?regs \<noteq> [] then finalStatusOf ?regs c
                                        else COURSE_CANCELED)\<rparr>)"
      using assms(2) by (simp add: eq allotWrites_getCourse)
    with eq show ?thesis by auto
  qed
  from late again allot show ?thesis by blast
qed

theorem C6_allot_date_witness:
  "isValidCourseIdFormat ''OFFERING-JAVA-JAMES'' \<and>
   getCourse (serve localeCompare [] [addJava 1 2]) ''OFFERING-JAVA-JAMES''
     = Some \<lparr>course_id = ''OFFERING-JAVA-JAMES'', course_name = ''JAVA'',
          instructor_name = ''JAMES'', start_date = ''15062030'', min_employees = 1,
          max_employees = 2, current_count = 0, is_allotted = False,
          course_status = None\<rparr> \<and>
   length ''15062030'' = 8 \<and>
   dateOfDDMMYYYY ''15062030'' = Some 22080 \<and>
   allotCourse localeCompare 22081 (serve localeCompare [] [addJava 1 2]) ''OFFERING-JAVA-JAMES''
     = (serve localeCompare [] [addJava 1 2], Inl (400, ''COURSE_ALLOT_DATE_ERROR'')) \<and>
   (\<exists>message registrations.
      snd (allotCourse localeCompare 22080 (serve localeCompare [] [addJava 1 2])
             ''OFFERING-JAVA-JAMES'') = Inr (message, registrations)) \<and>
   (\<exists>st. getCourse (fst (allotCourse localeCompare 22080 (serve localeCompare [] [addJava 1 2])
             ''OFFERING-JAVA-JAMES'')) ''OFFERING-JAVA-JAMES''
          = Some \<lparr>course_id = ''OFFERING-JAVA-JAMES'', course_name = ''JAVA'',
              instructor_name = ''JAMES'', start_date = ''15062030'', min_employees = 1,
              max_employees = 2, current_count = 0, is_allotted = True,
              course_status = Some st\<rparr>)"
proof -
  let ?c = "\<lparr>course_id = ''OFFERING-JAVA-JAMES'', course_name = ''JAVA'',
          instructor_name = ''JAMES'', start_date = ''15062030'', min_employees = 1,
          max_employees = 2, current_count = 0, is_allotted = False,
          course_status = None\<rparr>"
  have v: "isValidCourseIdFormat ''OFFERING-JAVA-JAMES''" by code_simp
  have c: "getCourse (serve localeCompare [] [addJava 1 2]) ''OFFERING-JAVA-JAMES'' = Some ?c"
    by code_simp
  have l: "length (start_date ?c) = 8" by simp
  have d: "dateOfDDMMYYYY (start_date ?c) = Some 22080" by code_simp
  have d': "dateOfDDMMYYYY ''15062030'' = Some 22080" using d by simp
  have late: "allotCourse localeCompare 22081 (serve localeCompare [] [addJava 1 2])
      ''OFFERING-JAVA-JAMES''
     = (serve localeCompare [] [addJava 1 2], Inl (400, ''COURSE_ALLOT_DATE_ERROR''))"
    using C6_allot_date [OF v c l d, of 22081 localeCompare] by simp
  have onday: "(\<exists>message registrations.
      snd (allotCourse localeCompare 22080 (serve localeCompare [] [addJava 1 2])
             ''OFFERING-JAVA-JAMES'') = Inr (message, registrations)) \<and>
   (\<exists>st. getCourse (fst (allotCourse localeCompare 22080 (serve localeCompare [] [addJava 1 2])
             ''OFFERING-JAVA-JAMES'')) ''OFFERING-JAVA-JAMES''
          = Some (?c\<lparr>is_allotted := True, course_status := Some st\<rparr>))"
    using C6_allot_date [OF v c l d, of 22080 localeCompare] by simp
  show ?thesis
    using v c d' late onday by simp
qed

text \<open>
  Claim C6 as stated fails on the start date: the check is \<open>currentDate > courseStartDate\<close>,
  so on 15 June 2030 (day 22080) the course starting that day is allotted.
\<close>

theorem C6_allot_date_counterexample:
  "getCourse (serve localeCompare [] [addJava 1 2]) ''OFFERING-JAVA-JAMES''
     = Some \<lparr>course_id = ''OFFERING-JAVA-JAMES'', course_name = ''JAVA'',
          instructor_name = ''JAMES'', start_date = ''15062030'', min_employees = 1,
          max_employees = 2, current_count = 0, is_allotted = False,
          course_status = None\<rparr> \<and>
   dateOfDDMMYYYY ''15062030'' = Some 22080 \<and>
   snd (allotCourse localeCompare 22080 (serve localeCompare [] [addJava 1 2]) ''OFFERING-JAVA-JAMES'')
     = Inr (''Course canceled - minimum registrations not met'', []) \<and>
   allotted (fst (allotCourse localeCompare 22080 (serve localeCompare [] [addJava 1 2])
     ''OFFERING-JAVA-JAMES'')) ''OFFERING-JAVA-JAMES''"
  by code_simp

section \<open>The allotment decision\<close>

lemma allot_effect:
  assumes wf: "wf_table t"
    and ok: "allotCourse lc today t cid = (t', Inr res)"
    and c: "getCourse t cid = Some c"
    and final: "finalStatus =
      (if 0 < registrationCount t cid \<and> min_employees c \<le> int (registrationCount t cid)
       then CONFIRMED else COURSE_CANCELED)"
  shows "getCourse t' cid = Some (c\<lparr>is_allotted := True, course_status := Some finalStatus\<rparr>) \<and>
         (\<forall>rid it. getItem t (coursePK cid, regSK rid) = Some it \<longrightarrow>
            (\<exists>r. it = Registration r \<and>
               getItem t' (coursePK cid, regSK rid)
                 = Some (Registration (r\<lparr>status := finalStatus\<rparr>)))) \<and>
         registrationCount t' cid = registrationCount t cid \<and>
         (\<exists>ws. t' = transactWrite ws t)"
proof -
  let ?regs = "registrationsOf (query t (coursePK cid) ''REG#'')"
  let ?st = "finalStatusOf ?regs c"
  from allotCourse_Inr [OF ok] c
  have t': "t' = transactWrite (allotWrites cid ?regs ?st) t" by auto
  have len: "length ?regs = registrationCount t cid"
    by (rule wf_length_registrations [OF wf])
  have ne: "(?regs \<noteq> []) = (0 < registrationCount t cid)"
    using len by (metis length_greater_0_conv)
  have st: "(if ?regs \<noteq> [] then ?st else COURSE_CANCELED) = finalStatus"
    using len final by (simp add: finalStatusOf_def ne)
  have course: "getCourse t' cid
                  = Some (c\<lparr>is_allotted := True, course_status := Some finalStatus\<rparr>)"
    using t' c st by (simp add: allotWrites_getCourse)
  have rows: "\<exists>r. it = Registration r \<and>
               getItem t' (coursePK cid, regSK rid)
                 = Some (Registration (r\<lparr>status := finalStatus\<rparr>))"
    if it: "getItem t (coursePK cid, regSK rid) = Some it" for rid it
  proof -
    from wf have d: "distinct (map fst t)" by (simp add: wf_table_def)
    from wf_query_item [OF wf query_item [OF d it]]
    obtain r where r: "it = Registration r" by blast
    have mem: "rid \<in> registration_id ` set ?regs"
      using wf_registration_ids [OF wf, of rid cid] it by simp
    then have ne: "?regs \<noteq> []" by auto
    with st have "?st = finalStatus" by simp
    with mem ne it r t' show ?thesis
      by (simp add: allotWrites_getItem_reg setStatus_def)
  qed
  have count: "registrationCount t' cid = registrationCount t cid"
    using t' by (simp add: registrationCount_keys allotWrites_keys)
  show ?thesis
    using course rows count t' by blast
qed

text \<open>
  Claim C2, as the code has it. On a table that keeps the key discipline, a successful
  \<open>allotCourse\<close> applies one list of writes. With at least one registration row the
  final status is \<open>CONFIRMED\<close> when the number of rows reaches \<open>min_employees\<close> and
  \<open>COURSE_CANCELED\<close> otherwise; with no registration row the course is marked
  \<open>COURSE_CANCELED\<close> whatever \<open>min_employees\<close> is. The course gets \<open>is_allotted\<close> and
  that status, and every by-course registration row gets that status.
\<close>

theorem C2_allot_decision:
  assumes wf: "wf_table t"
    and ok: "allotCourse lc today t cid = (t', Inr res)"
    and c: "getCourse t cid = Some c"
    and final: "finalStatus =
      (if 0 < registrationCount t cid \<and> min_employees c \<le> int (registrationCount t cid)
       then CONFIRMED else COURSE_CANCELED)"
  shows "getCourse t' cid = Some (c\<lparr>is_allotted := True, course_status := Some finalStatus\<rparr>) \<and>
         (\<forall>rid it. getItem t (coursePK cid, regSK rid) = Some it \<longrightarrow>
            (\<exists>r. it = Registration r \<and>
               getItem t' (coursePK cid, regSK rid)
                 = Some (Registration (r\<lparr>status := finalStatus\<rparr>)))) \<and>
         registrationCount t' cid = registrationCount t cid \<and>
         (\<exists>ws. t' = transactWrite ws t)"
  using assms by (rule allot_effect)

theorem C2_allot_decision_witness:
  "wf_table (serve localeCompare []
      [addJava 1 2, registerJava ''Andy'' ''andy@gmail.com'',
       registerJava ''Jhon'' ''jhon@gmail.com'']) \<and>
   allotCourse localeCompare 22001
     (serve localeCompare []
        [addJava 1 2, registerJava ''Andy'' ''andy@gmail.com'',
         registerJava ''Jhon'' ''jhon@gmail.com''])
     ''OFFERING-JAVA-JAMES''
     = (serve localeCompare []
          [addJava 1 2, registerJava ''Andy'' ''andy@gmail.com'',
           registerJava ''Jhon'' ''jhon@gmail.com'', AllotCourse 22001 ''OFFERING-JAVA-JAMES''],
        Inr (''successfully allotted course to registered employees'',
          [\<lparr>out_registration_id = ''ANDY-OFFERING-JAVA-JAMES'', out_email = ''andy@gmail.com'',
             out_course_name = ''JAVA'', out_course_id = ''OFFERING-JAVA-JAMES'',
             out_status = CONFIRMED\<rparr>,
           \<lparr>out_registration_id = ''JHON-OFFERING-JAVA-JAMES'', out_email = ''jhon@gmail.com'',
             out_course_name = ''JAVA'', out_course_id = ''OFFERING-JAVA-JAMES'',
             out_status = CONFIRMED\<rparr>])) \<and>
   registrationCount (serve localeCompare []
      [addJava 1 2, registerJava ''Andy'' ''andy@gmail.com'',
       registerJava ''Jhon'' ''jhon@gmail.com'']) ''OFFERING-JAVA-JAMES'' = 2 \<and>
   getCourse (serve localeCompare []
      [addJava 1 2, registerJava ''Andy'' ''andy@gmail.com'',
       registerJava ''Jhon'' ''jhon@gmail.com'', AllotCourse 22001 ''OFFERING-JAVA-JAMES''])
     ''OFFERING-JAVA-JAMES''
     = Some (\<lparr>course_id = ''OFFERING-JAVA-JAMES'', course_name = ''JAVA'',
          instructor_name = ''JAMES'', start_date = ''15062030'', min_employees = 1,
          max_employees = 2, current_count = 2, is_allotted = False,
          course_status = None\<rparr>\<lparr>is_allotted := True, course_status := Some CONFIRMED\<rparr>)"
proof -
  let ?t = "serve localeCompare []
      [addJava 1 2, registerJava ''Andy'' ''andy@gmail.com'',
       registerJava ''Jhon'' ''jhon@gmail.com'']"
  let ?c = "\<lparr>course_id = ''OFFERING-JAVA-JAMES'', course_name = ''JAVA'',
          instructor_name = ''JAMES'', start_date = ''15062030'', min_employees = 1,
          max_employees = 2, current_count = 2, is_allotted = False,
          course_status = None\<rparr>"
  have wf: "wf_table ?t" by code_simp
  have ok: "allotCourse localeCompare 22001 ?t ''OFFERING-JAVA-JAMES''
     = (serve localeCompare []
          [addJava 1 2, registerJava ''Andy'' ''andy@gmail.com'',
           registerJava ''Jhon'' ''jhon@gmail.com'', AllotCourse 22001 ''OFFERING-JAVA-JAMES''],
        Inr (''successfully allotted course to registered employees'',
          [\<lparr>out_registration_id = ''ANDY-OFFERING-JAVA-JAMES'', out_email = ''andy@gmail.com'',
             out_course_name = ''JAVA'', out_course_id = ''OFFERING-JAVA-JAMES'',
             out_status = CONFIRMED\<rparr>,
           \<lparr>out_registration_id = ''JHON-OFFERING-JAVA-JAMES'', out_email = ''jhon@gmail.com'',
             out_course_name = ''JAVA'', out_course_id = ''OFFERING-JAVA-JAMES'',
             out_status = CONFIRMED\<rparr>]))"
    by code_simp
  have c: "getCourse ?t ''OFFERING-JAVA-JAMES'' = Some ?c" by code_simp
  have n: "registrationCount ?t ''OFFERING-JAVA-JAMES'' = 2" by code_simp
  have f: "CONFIRMED =
      (if 0 < registrationCount ?t ''OFFERING-JAVA-JAMES'' \<and>
          min_employees ?c \<le> int (registrationCount ?t ''OFFERING-JAVA-JAMES'')
       then CONFIRMED else COURSE_CANCELED)"
    by (simp only: n) simp
  show ?thesis
    using wf ok n C2_allot_decision [OF wf ok c f] by blast
qed

text \<open>
  Claim C2 as stated fails for a course without registrations whose \<open>min_employees\<close> is
  0: the count reaches the minimum, and the branch for an empty registration list still
  writes \<open>COURSE_CANCELED\<close>.
\<close>

theorem C2_allot_decision_counterexample:
  "map_option min_employees
     (getCourse (serve localeCompare [] [addJava 0 2]) ''OFFERING-JAVA-JAMES'') = Some 0 \<and>
   registrationCount (serve localeCompare [] [addJava 0 2]) ''OFFERING-JAVA-JAMES'' = 0 \<and>
   snd (allotCourse localeCompare 22001 (serve localeCompare [] [addJava 0 2])
          ''OFFERING-JAVA-JAMES'')
     = Inr (''successfully allotted course to registered employees'', []) \<and>
   map_option course_status
     (getCourse (fst (allotCourse localeCompare 22001 (serve localeCompare [] [addJava 0 2])
          ''OFFERING-JAVA-JAMES'')) ''OFFERING-JAVA-JAMES'') = Some (Some COURSE_CANCELED)"
  by code_simp

section \<open>The response of allotment\<close>

lemma mset_insertBy: "mset (insertBy cmp x xs) = add_mset x (mset xs)"
  by (induction xs) auto

lemma mset_sortWith: "mset (sortWith cmp xs) = mset xs"
  by (induction xs) (simp_all add: sortWith_def mset_insertBy)























section \<open>The two copies of a registration\<close>



text \<open>\<open>allotCourse\<close> writes in the course's partition only: no by-employee row changes.\<close>

lemma allotWrites_getItem_other:
  "fst k \<noteq> coursePK cid \<Longrightarrow> getItem (transactWrite (allotWrites cid regs st) t) k = getItem t k"
  by (cases k)
     (auto simp: allotWrites_def transactWrite_append getItem_applyWrite
        setStatus_writes_getItem)

lemma allot_keeps_employee_rows:
  assumes "allotCourse lc today t cid = (t', r)"
  shows "getItem t' (employeePK e, sk) = getItem t (employeePK e, sk)"
proof (cases r)
  case (Inl f)
  with assms allotCourse_Inl show ?thesis by blast
next
  case (Inr res)
  with assms allotCourse_Inr [of lc today t cid t' res] show ?thesis
    by (auto simp: allotWrites_getItem_other)
qed





section \<open>The key discipline is kept\<close>

lemma set_update_cases:
  "row \<in> set (AList.update k v t) \<Longrightarrow> row = (k, v) \<or> row \<in> set t"
  by (induction t) (auto split: if_splits)

lemma set_delete_subset: "row \<in> set (AList.delete k t) \<Longrightarrow> row \<in> set t"
  by (simp add: AList.delete_eq)

lemma set_map_entry_cases:
  "row \<in> set (AList.map_entry k f t) \<Longrightarrow>
   row \<in> set t \<or> (\<exists>v. (k, v) \<in> set t \<and> row = (k, f v))"
  by (induction t) (auto split: if_splits)

lemma rowKeyed_addCurrentCount: "rowKeyed k it \<Longrightarrow> rowKeyed k (addCurrentCount n it)"
  by (cases k; cases it) (simp_all add: addCurrentCount_def)

lemma rowKeyed_setStatus: "rowKeyed k it \<Longrightarrow> rowKeyed k (setStatus st it)"
  by (cases k; cases it) (simp_all add: setStatus_def)

lemma rowKeyed_setAllotted: "rowKeyed k it \<Longrightarrow> rowKeyed k (setAllotted b st it)"
  by (cases k; cases it) (simp_all add: setAllotted_def)

lemma wf_map_entry:
  assumes "wf_table t" and "\<And>it. rowKeyed k it \<Longrightarrow> rowKeyed k (f it)"
  shows "wf_table (AList.map_entry k f t)"
  unfolding wf_table_def
proof (intro conjI ballI)
  show "distinct (map fst (AList.map_entry k f t))"
    using assms(1) by (simp add: wf_table_def distinct_map_entry)
  fix row assume "row \<in> set (AList.map_entry k f t)"
  from set_map_entry_cases [OF this] assms
  show "rowKeyed (fst row) (snd row)"
    by (auto simp: wf_table_def)
qed

lemma wf_applyWrite:
  assumes "keyedWrite w" and "wf_table t"
  shows "wf_table (applyWrite w t)"
proof (cases w)
  case (Put k it)
  have "rowKeyed (fst row) (snd row)" if "row \<in> set (AList.update k it t)" for row
    using set_update_cases [OF that] assms Put by (auto simp: wf_table_def)
  moreover have "distinct (map fst (AList.update k it t))"
    using assms(2) by (simp add: wf_table_def distinct_update)
  ultimately show ?thesis using Put by (simp add: wf_table_def)
next
  case (Delete k)
  have "rowKeyed (fst row) (snd row)" if "row \<in> set (AList.delete k t)" for row
    using set_delete_subset [OF that] assms(2) by (auto simp: wf_table_def)
  moreover have "distinct (map fst (AList.delete k t))"
    using assms(2) by (simp add: wf_table_def distinct_delete)
  ultimately show ?thesis using Delete by (simp add: wf_table_def)
next
  case (AddCurrentCount k n)
  then show ?thesis using assms(2) by (simp add: wf_map_entry rowKeyed_addCurrentCount)
next
  case (SetStatus k st)
  then show ?thesis using assms(2) by (simp add: wf_map_entry rowKeyed_setStatus)
next
  case (SetAllotted k b st)
  then show ?thesis using assms(2) by (simp add: wf_map_entry rowKeyed_setAllotted)
qed

lemma wf_transactWrite:
  "\<forall>w \<in> set ws. keyedWrite w \<Longrightarrow> wf_table t \<Longrightarrow> wf_table (transactWrite ws t)"
  by (induction ws arbitrary: t) (simp_all add: wf_applyWrite)

lemma keyedWrite_registerWrites: "\<forall>w \<in> set (registerWrites ts cid rid n e). keyedWrite w"
  by (simp add: registerWrites_def)

lemma keyedWrite_cancelWrites: "\<forall>w \<in> set (cancelWrites cid rid r). keyedWrite w"
  by (simp add: cancelWrites_def)

lemma keyedWrite_allotWrites: "\<forall>w \<in> set (allotWrites cid regs st). keyedWrite w"
  by (auto simp: allotWrites_def)

lemma wf_handle: "wf_table t \<Longrightarrow> wf_table (handle lc t req)"
proof (cases req)
  case (AddCourseOffering today cn ins sd mn mx)
  assume wf: "wf_table t"
  obtain t' r where eq: "addCourseOffering today t cn ins sd mn mx = (t', r)" by fastforce
  show ?thesis
  proof (cases r)
    case (Inl f)
    with eq addCourseOffering_Inl wf AddCourseOffering show ?thesis by fastforce
  next
    case (Inr cid)
    from addCourseOffering_Inr [OF eq [unfolded Inr]]
    obtain c where t': "t' = applyWrite (Put (coursePK cid, ''METADATA'') (Course c)) t"
      and c: "course_id c = cid"
      by auto
    have "keyedWrite (Put (coursePK cid, ''METADATA'') (Course c))" using c by simp
    from wf_applyWrite [OF this wf] t' eq AddCourseOffering show ?thesis by simp
  qed
next
  case (AllotCourse today cid)
  assume wf: "wf_table t"
  obtain t' r where eq: "allotCourse lc today t cid = (t', r)" by fastforce
  show ?thesis
  proof (cases r)
    case (Inl f)
    with eq allotCourse_Inl wf AllotCourse show ?thesis by fastforce
  next
    case (Inr res)
    from allotCourse_Inr [OF eq [unfolded Inr]]
    obtain regs st where "t' = transactWrite (allotWrites cid regs st) t" by blast
    with wf_transactWrite [OF keyedWrite_allotWrites wf] eq AllotCourse
    show ?thesis by simp
  qed
next
  case (RegisterForCourse ts cid n e)
  assume wf: "wf_table t"
  obtain t' r where eq: "registerForCourse ts t cid n e = (t', r)" by fastforce
  show ?thesis
  proof (cases r)
    case (Inl f)
    with eq registerForCourse_Inl wf RegisterForCourse show ?thesis by fastforce
  next
    case (Inr res)
    from registerForCourse_Inr [OF eq [unfolded Inr]]
    obtain rid n' e' where "t' = transactWrite (registerWrites ts cid rid n' e') t" by blast
    with wf_transactWrite [OF keyedWrite_registerWrites wf] eq RegisterForCourse
    show ?thesis by simp
  qed
next
  case (CancelRegistration rid)
  assume wf: "wf_table t"
  obtain t' r where eq: "cancelRegistration t rid = (t', r)" by fastforce
  show ?thesis
  proof (cases r)
    case (Inl f)
    with eq cancelRegistration_Inl wf CancelRegistration show ?thesis by fastforce
  next
    case (Inr res)
    from cancelRegistration_Inr [OF eq [unfolded Inr]]
    have "t' = t \<or> (\<exists>cid reg. t' = transactWrite (cancelWrites cid rid reg) t)" by blast
    with wf_transactWrite [OF keyedWrite_cancelWrites wf] wf eq CancelRegistration
    show ?thesis by auto
  qed
qed

lemma wf_serve_from: "wf_table t \<Longrightarrow> wf_table (serve lc t reqs)"
  by (induction reqs arbitrary: t) (simp_all add: wf_handle)

text \<open>
  Every table that the controllers build from the empty table keeps the key discipline,
  so the condition \<open>wf_table\<close> of the allotment theorems holds in every reachable table.
\<close>

lemma wf_serve: "wf_table (serve lc [] reqs)"
  by (rule wf_serve_from) (simp add: wf_table_def)

end
